theory Spec2Isabelle
  imports
    Main
    "HOL-Library.Word"
    "HOL-Library.Sublist"
    "HOL-Library.Multiset"
    "HOL-Library.Char_ord"
    "HOL-Library.List_Lexorder"
begin

section \<open>The book catalogue of script.js\<close>

text \<open>
  The development embeds the data and state layer of \<^verbatim>\<open>src/script.js\<close>: the global
  variables \<^verbatim>\<open>books\<close>, \<^verbatim>\<open>tags\<close>, \<^verbatim>\<open>lastSortKey\<close>, \<^verbatim>\<open>sortOrder\<close>, the two
  \<^verbatim>\<open>localStorage\<close> slots, and every function that reads or writes them. DOM rendering is
  left out except where a rendering function writes a global (\<^verbatim>\<open>renderTagControls\<close> sorts
  \<^verbatim>\<open>tags\<close> in place).

  Conventions of the embedding.
  \<^item> A JavaScript string is a \<open>string\<close>: a list of code units below 256 (Latin-1). On this
    range \<^verbatim>\<open>toLowerCase\<close>, \<^verbatim>\<open>trim\<close>, \<^verbatim>\<open>charCodeAt\<close> and the relational operators on
    strings are defined below as ECMAScript defines them; \<open><\<close> on \<open>string\<close> is the
    lexicographic order on code units.
  \<^item> Books and tags are records with the fields the code writes (\<^verbatim>\<open>saveForm\<close>, \<^verbatim>\<open>ensureTagExists\<close>,
    \<^verbatim>\<open>importBackup\<close>): a tag has a name and a color, both strings; a book has title, author
    and link (strings), a year (a string, a number, or \<^verbatim>\<open>null\<close> where a backup said so) and
    an array of tag names. The field \<^verbatim>\<open>tags\<close> of a book is called \<open>btags\<close>, since the global
    \<^verbatim>\<open>tags\<close> has that name already. Storage slots and backup documents hold arrays of such
    values; a document may also be \<^verbatim>\<open>null\<close>, and its tags may be bare names or values on
    which the import throws. Values of other shapes are outside the embedding.
  \<^item> A JavaScript number is \<open>NaN\<close>, an infinity, or \<open>Fin n\<close> for a finite value \<open>n\<close> of a type
    \<open>'n\<close> that stays a parameter. \<^verbatim>\<open>Number(s)\<close> and the printing of finite numbers belong
    to the host and are parameters (\<open>Number\<close>, \<open>numToString\<close>) of the functions that call them;
    numbers are compared as \<^verbatim>\<open>===\<close> compares them.
  \<^item> \<^verbatim>\<open>String.prototype.localeCompare\<close> belongs to the host as well: the collation of the
    host's locale gives every string a sort key (parameter \<open>ckey\<close>), and two strings compare
    as their keys do.
  \<^item> User answers (\<^verbatim>\<open>confirm\<close>) and form fields are arguments; \<^verbatim>\<open>alert\<close> is the returned
    outcome.
\<close>

subsection \<open>Strings\<close>

definition is_ws :: "char \<Rightarrow> bool" where
  \<comment> \<open>WhiteSpace and LineTerminator code units below 256: TAB, LF, VT, FF, CR, SP, NBSP.\<close>
  "is_ws c = ((of_char c :: nat) \<in> {9, 10, 11, 12, 13, 32, 160})"

definition trim :: "string \<Rightarrow> string" where
  "trim s = rev (dropWhile is_ws (rev (dropWhile is_ws s)))"

definition lower_char :: "char \<Rightarrow> char" where
  \<comment> \<open>A-Z, and the Latin-1 capitals U+00C0..U+00DE without the multiplication sign U+00D7.\<close>
  "lower_char c =
     (let n = (of_char c :: nat)
      in if (65 \<le> n \<and> n \<le> 90) \<or> (192 \<le> n \<and> n \<le> 222 \<and> n \<noteq> 215)
         then char_of (n + 32) else c)"

definition toLowerCase :: "string \<Rightarrow> string" where
  "toLowerCase s = map lower_char s"

fun includes_str :: "string \<Rightarrow> string \<Rightarrow> bool" where
  \<comment> \<open>\<^verbatim>\<open>hay.includes(needle)\<close> on strings: the needle starts at some position of the hay.\<close>
  "includes_str [] needle = (needle = [])"
| "includes_str (c # hay) needle = (prefix needle (c # hay) \<or> includes_str hay needle)"

fun join :: "string \<Rightarrow> string list \<Rightarrow> string" where
  \<comment> \<open>\<^verbatim>\<open>xs.join(sep)\<close> on an array of strings.\<close>
  "join sep [] = []"
| "join sep [x] = x"
| "join sep (x # y # ys) = x @ sep @ join sep (y # ys)"

definition digit_char :: "nat \<Rightarrow> char" where
  "digit_char d = char_of (48 + d)"

function show_nat :: "nat \<Rightarrow> string" where
  "show_nat n = (if n < 10 then [digit_char n] else show_nat (n div 10) @ [digit_char (n mod 10)])"
  by pat_completeness auto
termination
  by (relation "measure (\<lambda>n. n)") auto

subsection \<open>Array.prototype.sort\<close>

text \<open>
  \<^verbatim>\<open>xs.sort(cmp)\<close> is stable, and for a consistent comparison function its result is
  determined by the comparator alone. Insertion from the right computes it: an element goes
  before the first element that it does not exceed.
\<close>

fun insert_sorted :: "('a \<Rightarrow> 'a \<Rightarrow> int) \<Rightarrow> 'a \<Rightarrow> 'a list \<Rightarrow> 'a list" where
  "insert_sorted cmp x [] = [x]"
| "insert_sorted cmp x (y # ys) =
     (if cmp x y \<le> 0 then x # y # ys else y # insert_sorted cmp x ys)"

definition array_sort :: "('a \<Rightarrow> 'a \<Rightarrow> int) \<Rightarrow> 'a list \<Rightarrow> 'a list" where
  "array_sort cmp xs = foldr (insert_sorted cmp) xs []"

definition localeCompare :: "(string \<Rightarrow> 'k::linorder) \<Rightarrow> string \<Rightarrow> string \<Rightarrow> int" where
  "localeCompare ckey a b = (if ckey a < ckey b then - 1 else if ckey b < ckey a then 1 else 0)"

subsection \<open>Data\<close>

record tag =
  name :: string
  color :: string

datatype 'n jsnum = NaN | PosInf | NegInf | Fin 'n

datatype 'n yearval = YearStr string | YearNum "'n jsnum" | YearNull

record 'n book =
  title :: string
  author :: string
  year :: "'n yearval"
  link :: string
  btags :: "string list"

text \<open>
  A \<^verbatim>\<open>localStorage\<close> slot: \<^verbatim>\<open>getItem\<close> gives \<^verbatim>\<open>null\<close> or the empty string (\<open>NoItem\<close>), a text
  that \<^verbatim>\<open>JSON.parse\<close> rejects (\<open>Unparsable\<close>), or the JSON text of an array (\<open>Stored\<close>).
\<close>

datatype 'a item = NoItem | Unparsable | Stored 'a

record 'n state =
  books :: "'n book list"
  tags :: "tag list"
  lastSortKey :: "string option"
  sortOrder :: int
  storage_books :: "'n book list item"
  storage_tags :: "tag list item"

datatype error = ValidationError | ImportError

datatype outcome = Done | Failed error

definition PREDEFINED_TAGS :: "tag list" where
  "PREDEFINED_TAGS =
     [\<lparr>name = ''Math'', color = ''#2f9e44''\<rparr>,
      \<lparr>name = ''Physics'', color = ''#d9480f''\<rparr>,
      \<lparr>name = ''Biology'', color = ''#8d6e21''\<rparr>]"

subsection \<open>JSON\<close>

text \<open>
  \<^verbatim>\<open>JSON.stringify\<close> writes \<^verbatim>\<open>null\<close> for a number that is not finite; every other value of a
  book or a tag is read back by \<^verbatim>\<open>JSON.parse\<close> as it was. \<open>json_book\<close> is a book after
  \<^verbatim>\<open>JSON.parse(JSON.stringify(b))\<close>.
\<close>

fun json_year :: "'n yearval \<Rightarrow> 'n yearval" where
  "json_year (YearNum (Fin n)) = YearNum (Fin n)"
| "json_year (YearNum _) = YearNull"
| "json_year y = y"

definition json_book :: "'n book \<Rightarrow> 'n book" where
  "json_book b = b\<lparr>year := json_year (year b)\<rparr>"

definition saveBooks :: "'n state \<Rightarrow> 'n state" where
  "saveBooks st = st\<lparr>storage_books := Stored (map json_book (books st))\<rparr>"

definition saveTags :: "'n state \<Rightarrow> 'n state" where
  "saveTags st = st\<lparr>storage_tags := Stored (tags st)\<rparr>"

subsection \<open>Tags\<close>

definition tag_cmp :: "(string \<Rightarrow> 'k::linorder) \<Rightarrow> tag \<Rightarrow> tag \<Rightarrow> int" where
  \<comment> \<open>\<^verbatim>\<open>(a,b)=>String(a.name).localeCompare(String(b.name))\<close>\<close>
  "tag_cmp ckey a b = localeCompare ckey (name a) (name b)"

definition loadBooks :: "'n book list item \<Rightarrow> 'n book list" where
  "loadBooks raw = (case raw of Stored bs \<Rightarrow> bs | _ \<Rightarrow> [])"

definition loadTags :: "(string \<Rightarrow> 'k::linorder) \<Rightarrow> tag list item \<Rightarrow> tag list \<times> tag list item" where
  \<comment> \<open>The result and the slot afterwards: the fallback writes the slot.\<close>
  "loadTags ckey raw =
     (let base = array_sort (tag_cmp ckey) PREDEFINED_TAGS
      in case raw of
           Stored parsed \<Rightarrow>
             if parsed \<noteq> [] then (array_sort (tag_cmp ckey) parsed, raw)
             else (base, Stored base)
         | _ \<Rightarrow> (base, Stored base))"

definition hash_step :: "32 word \<Rightarrow> char \<Rightarrow> 32 word" where
  \<comment> \<open>\<^verbatim>\<open>h = (h * 31 + name.charCodeAt(i)) | 0\<close>\<close>
  "hash_step h c = h * 31 + of_nat (of_char c)"

definition colorForTagName :: "string \<Rightarrow> string" where
  "colorForTagName nm =
     (let h = foldl hash_step 0 nm;
          hue = nat \<bar>sint h\<bar> mod 360
      in ''hsl('' @ show_nat hue @ '' 70% 45%)'')"

definition findTagByName :: "string \<Rightarrow> tag list \<Rightarrow> tag option" where
  "findTagByName nm ts = find (\<lambda>t. name t = nm) ts"

definition renderTagControls :: "(string \<Rightarrow> 'k::linorder) \<Rightarrow> 'n state \<Rightarrow> 'n state" where
  \<comment> \<open>Only the write to \<^verbatim>\<open>tags\<close>; the rest builds DOM nodes.\<close>
  "renderTagControls ckey st = st\<lparr>tags := array_sort (tag_cmp ckey) (tags st)\<rparr>"

definition renderAll :: "(string \<Rightarrow> 'k::linorder) \<Rightarrow> 'n state \<Rightarrow> 'n state" where
  \<comment> \<open>\<^verbatim>\<open>updateDropdowns\<close> and \<^verbatim>\<open>applyFilters\<close> write no global.\<close>
  "renderAll ckey st = renderTagControls ckey st"

definition ensureTagExists ::
  "(string \<Rightarrow> 'k::linorder) \<Rightarrow> string \<Rightarrow> 'n state \<Rightarrow> tag option \<times> 'n state" where
  "ensureTagExists ckey nm st =
     (let nm' = trim nm
      in if nm' = [] then (None, st)
         else case findTagByName nm' (tags st) of
                Some existing \<Rightarrow> (Some existing, st)
              | None \<Rightarrow>
                  (let t = \<lparr>name = nm', color = colorForTagName nm'\<rparr>;
                       st1 = st\<lparr>tags := tags st @ [t]\<rparr>;
                       st2 = st1\<lparr>tags := array_sort (tag_cmp ckey) (tags st1)\<rparr>;
                       st3 = saveTags st2
                   in (Some t, renderTagControls ckey st3)))"

definition addCustomTagFromInput :: "(string \<Rightarrow> 'k::linorder) \<Rightarrow> string \<Rightarrow> 'n state \<Rightarrow> 'n state" where
  \<comment> \<open>\<open>newTagInput\<close> is the value of the input field; the rest ticks a check box.\<close>
  "addCustomTagFromInput ckey newTagInput st =
     (let val = trim newTagInput
      in if val = [] then st else snd (ensureTagExists ckey val st))"

definition init_step :: "tag \<Rightarrow> tag list \<Rightarrow> tag list" where
  \<comment> \<open>\<^verbatim>\<open>if (!findTagByName(pt.name)) tags.push(pt)\<close>\<close>
  "init_step pt ts = (if findTagByName (name pt) ts = None then ts @ [pt] else ts)"

definition init :: "(string \<Rightarrow> 'k::linorder) \<Rightarrow> 'n state \<Rightarrow> 'n state" where
  "init ckey st =
     (let st1 = st\<lparr>tags := fold init_step PREDEFINED_TAGS (tags st)\<rparr>;
          st2 = st1\<lparr>tags := array_sort (tag_cmp ckey) (tags st1)\<rparr>
      in renderAll ckey (saveTags st2))"

definition startup ::
  "(string \<Rightarrow> 'k::linorder) \<Rightarrow> 'n book list item \<Rightarrow> tag list item \<Rightarrow> 'n state" where
  \<comment> \<open>Loading the script: the initialisers of the four globals, then \<^verbatim>\<open>init()\<close>.\<close>
  "startup ckey raw_books raw_tags =
     (let (ts, slot) = loadTags ckey raw_tags
      in init ckey \<lparr>books = loadBooks raw_books, tags = ts, lastSortKey = None, sortOrder = 1,
                    storage_books = raw_books, storage_tags = slot\<rparr>)"

definition deleteTag :: "(string \<Rightarrow> 'k::linorder) \<Rightarrow> bool \<Rightarrow> string \<Rightarrow> 'n state \<Rightarrow> 'n state" where
  \<comment> \<open>\<open>confirmed\<close> is the answer to \<^verbatim>\<open>confirm(msg)\<close>.\<close>
  "deleteTag ckey confirmed tagName st =
     (case findTagByName tagName (tags st) of
        None \<Rightarrow> st
      | Some tagObj \<Rightarrow>
          if \<not> confirmed then st
          else (let st1 = saveBooks (st\<lparr>books :=
                            map (\<lambda>b. b\<lparr>btags := filter (\<lambda>t. t \<noteq> tagName) (btags b)\<rparr>) (books st)\<rparr>);
                    st2 = saveTags (st1\<lparr>tags := filter (\<lambda>t. name t \<noteq> tagName) (tags st1)\<rparr>)
                in renderAll ckey st2))"

subsection \<open>Filtering and sorting\<close>

record filters =
  searchInput :: string
  authorFilter :: string
  yearFilter :: string
  filterTags :: "string list"

definition num_String :: "('n \<Rightarrow> string) \<Rightarrow> 'n jsnum \<Rightarrow> string" where
  "num_String numToString x =
     (case x of NaN \<Rightarrow> ''NaN'' | PosInf \<Rightarrow> ''Infinity'' | NegInf \<Rightarrow> ''-Infinity''
      | Fin n \<Rightarrow> numToString n)"

definition year_String :: "('n \<Rightarrow> string) \<Rightarrow> 'n yearval \<Rightarrow> string" where
  \<comment> \<open>\<^verbatim>\<open>String(b.year)\<close>\<close>
  "year_String numToString y =
     (case y of YearStr s \<Rightarrow> s | YearNum x \<Rightarrow> num_String numToString x | YearNull \<Rightarrow> ''null'')"

definition applyFilters :: "('n \<Rightarrow> string) \<Rightarrow> filters \<Rightarrow> 'n state \<Rightarrow> 'n book list" where
  \<comment> \<open>The list handed to \<^verbatim>\<open>renderTable\<close>.\<close>
  "applyFilters numToString fs st =
     (let q = trim (toLowerCase (searchInput fs));
          selectedAuthor = authorFilter fs;
          selectedYear = yearFilter fs;
          selectedTags = filterTags fs
      in filter (\<lambda>b.
           let title' = toLowerCase (title b);
               author' = toLowerCase (author b);
               tagsLower = join '' '' (map toLowerCase (btags b));
               textMatch = (q = [] \<or> includes_str title' q \<or> includes_str author' q
                              \<or> includes_str tagsLower q);
               authorMatch = (selectedAuthor = [] \<or> author b = selectedAuthor);
               yearMatch = (selectedYear = [] \<or> year_String numToString (year b) = selectedYear);
               tagsMatch = (length selectedTags = 0
                              \<or> list_all (\<lambda>t. List.member (btags b) t) selectedTags)
           in textMatch \<and> authorMatch \<and> yearMatch \<and> tagsMatch) (books st))"

definition field_string :: "('n \<Rightarrow> string) \<Rightarrow> string \<Rightarrow> 'n book \<Rightarrow> string" where
  \<comment> \<open>\<^verbatim>\<open>(a[key] ?? "").toString()\<close> for the own properties of a book; an array prints its
      elements separated by commas.\<close>
  "field_string numToString key b =
     (if key = ''title'' then title b
      else if key = ''author'' then author b
      else if key = ''year'' then (case year b of YearNull \<Rightarrow> [] | y \<Rightarrow> year_String numToString y)
      else if key = ''link'' then link b
      else if key = ''tags'' then join '','' (btags b)
      else [])"

definition book_cmp :: "('n \<Rightarrow> string) \<Rightarrow> string \<Rightarrow> int \<Rightarrow> 'n book \<Rightarrow> 'n book \<Rightarrow> int" where
  "book_cmp numToString key order a b =
     (let A = toLowerCase (field_string numToString key a);
          B = toLowerCase (field_string numToString key b)
      in if A < B then - 1 * order else if B < A then 1 * order else 0)"

definition sortBy :: "('n \<Rightarrow> string) \<Rightarrow> string \<Rightarrow> 'n state \<Rightarrow> 'n state" where
  "sortBy numToString key st =
     (let st1 = (if lastSortKey st = Some key then st\<lparr>sortOrder := - sortOrder st\<rparr>
                 else st\<lparr>lastSortKey := Some key, sortOrder := 1\<rparr>);
          st2 = st1\<lparr>books := array_sort (book_cmp numToString key (sortOrder st1)) (books st1)\<rparr>
      in saveBooks st2)"

subsection \<open>Books\<close>

record form =
  editingIndex :: int  \<comment> \<open>\<^verbatim>\<open>parseInt\<close> of the hidden field, which the code fills with a number\<close>
  f_title :: string
  f_author :: string
  f_year :: string
  f_link :: string
  formTags :: "string list"  \<comment> \<open>the values of the checked boxes, in document order\<close>

fun uniq :: "'a list \<Rightarrow> 'a list" where
  \<comment> \<open>\<^verbatim>\<open>Array.from(new Set(xs))\<close>: the first occurrence of every element, in order.\<close>
  "uniq [] = []"
| "uniq (x # xs) = x # uniq (filter (\<lambda>y. y \<noteq> x) xs)"

definition form_year :: "(string \<Rightarrow> 'n jsnum) \<Rightarrow> string \<Rightarrow> 'n yearval" where
  \<comment> \<open>\<^verbatim>\<open>yearVal === "" ? "" : (isNaN(Number(yearVal)) ? yearVal : Number(yearVal))\<close>\<close>
  "form_year Number yearVal =
     (if yearVal = [] then YearStr []
      else if Number yearVal = NaN then YearStr yearVal
      else YearNum (Number yearVal))"

definition saveForm ::
  "(string \<Rightarrow> 'k::linorder) \<Rightarrow> (string \<Rightarrow> 'n jsnum) \<Rightarrow> form \<Rightarrow> 'n state \<Rightarrow> outcome \<times> 'n state" where
  "saveForm ckey Number fm st =
     (let idx = editingIndex fm;
          title' = trim (f_title fm);
          author' = trim (f_author fm);
          year' = form_year Number (f_year fm);
          link' = trim (f_link fm);
          checked = formTags fm
      in if title' = [] \<or> author' = [] then (Failed ValidationError, st)
         else (let uniqueTags = uniq checked;
                   st1 = fold (\<lambda>t s. snd (ensureTagExists ckey t s)) uniqueTags st;
                   bookObj = \<lparr>title = title', author = author', year = year', link = link',
                              btags = array_sort (localeCompare ckey) uniqueTags\<rparr>;
                   st2 = (if 0 \<le> idx \<and> idx < int (length (books st1))
                          then st1\<lparr>books := (books st1)[nat idx := bookObj]\<rparr>
                          else st1\<lparr>books := books st1 @ [bookObj]\<rparr>)
               in (Done, renderAll ckey (saveBooks st2))))"

definition splice1 :: "int \<Rightarrow> 'a list \<Rightarrow> 'a list" where
  \<comment> \<open>\<^verbatim>\<open>xs.splice(start, 1)\<close>: a negative start counts from the end, and both ends clamp.\<close>
  "splice1 start xs =
     (let len = int (length xs);
          actualStart = (if start < 0 then max (len + start) 0 else min start len);
          deleteCount = min 1 (len - actualStart)
      in take (nat actualStart) xs @ drop (nat (actualStart + deleteCount)) xs)"

definition deleteFromForm :: "(string \<Rightarrow> 'k::linorder) \<Rightarrow> bool \<Rightarrow> int \<Rightarrow> 'n state \<Rightarrow> 'n state" where
  "deleteFromForm ckey confirmed idx st =
     (if 0 \<le> idx \<and> idx < int (length (books st))
      then (if \<not> confirmed then st
            else renderAll ckey (saveBooks (st\<lparr>books := splice1 idx (books st)\<rparr>)))
      else st)"

definition deleteBook :: "(string \<Rightarrow> 'k::linorder) \<Rightarrow> bool \<Rightarrow> int \<Rightarrow> 'n state \<Rightarrow> 'n state" where
  "deleteBook ckey confirmed index st =
     (if \<not> confirmed then st
      else renderAll ckey (saveBooks (st\<lparr>books := splice1 index (books st)\<rparr>)))"

subsection \<open>Import and export\<close>

text \<open>
  A backup document is represented by what \<^verbatim>\<open>JSON.parse\<close> makes of its text: \<open>Malformed\<close>
  when \<^verbatim>\<open>JSON.parse\<close> throws, \<open>JsonNull\<close> for the value \<^verbatim>\<open>null\<close>, else the two properties
  the code reads. \<open>doc_books\<close> and \<open>doc_tags\<close> are \<open>None\<close> when the property is missing or no
  array. An entry of \<^verbatim>\<open>tags\<close> is
  \<^item> a string (\<open>BareName\<close>);
  \<^item> an object with a string as name and perhaps a color (\<open>TagObject\<close>; no color, \<^verbatim>\<open>null\<close>
    and the empty string are the falsy colors);
  \<^item> a value on which the callback of \<^verbatim>\<open>parsed.tags.map\<close> throws a \<^verbatim>\<open>TypeError\<close>
    (\<open>Throwing\<close>): \<^verbatim>\<open>null\<close>, where \<^verbatim>\<open>t.name\<close> throws, or a value with neither a name nor a
    truthy color, such as a number, \<^verbatim>\<open>true\<close>, \<^verbatim>\<open>[]\<close> or \<^verbatim>\<open>{}\<close>, where
    \<^verbatim>\<open>colorForTagName(undefined)\<close> throws at \<^verbatim>\<open>name.length\<close>.
  An object whose name is no string, or that has a color and no name, would put a tag
  without a string as name into the store; such entries are outside the embedding.
\<close>

datatype tag_entry = BareName string | TagObject string "string option" | Throwing

record 'n backup =
  doc_books :: "'n book list option"
  doc_tags :: "tag_entry list option"

datatype 'n document = Malformed | JsonNull | Json "'n backup"

fun import_tag :: "tag_entry \<Rightarrow> tag option" where
  \<comment> \<open>The callback of \<^verbatim>\<open>parsed.tags.map\<close>; \<open>None\<close> when it throws.\<close>
  "import_tag (BareName t) = Some \<lparr>name = t, color = colorForTagName t\<rparr>"
| "import_tag (TagObject n c) =
     Some \<lparr>name = n,
           color = (case c of None \<Rightarrow> colorForTagName n
                    | Some c' \<Rightarrow> if c' = [] then colorForTagName n else c')\<rparr>"
| "import_tag Throwing = None"

definition map_entries :: "tag_entry list \<Rightarrow> tag list option" where
  \<comment> \<open>\<^verbatim>\<open>parsed.tags.map(...)\<close>; \<open>None\<close> when the callback throws on an entry.\<close>
  "map_entries es = those (map import_tag es)"

definition exportBackup :: "'n state \<Rightarrow> 'n document" where
  \<comment> \<open>The text is \<^verbatim>\<open>JSON.stringify({ books, tags }, null, 2)\<close>.\<close>
  "exportBackup st =
     Json \<lparr>doc_books = Some (map json_book (books st)),
           doc_tags = Some (map (\<lambda>t. TagObject (name t) (Some (color t))) (tags st))\<rparr>"

definition importBackup ::
  "(string \<Rightarrow> 'k::linorder) \<Rightarrow> 'n document \<Rightarrow> 'n state \<Rightarrow> outcome \<times> 'n state" where
  \<comment> \<open>The \<^verbatim>\<open>onload\<close> handler of the file reader. The \<^verbatim>\<open>catch\<close> takes the \<^verbatim>\<open>SyntaxError\<close> of
      \<^verbatim>\<open>JSON.parse\<close> and every \<^verbatim>\<open>TypeError\<close> after it: \<^verbatim>\<open>parsed.books\<close> on \<^verbatim>\<open>null\<close>, before
      any write; the callback of \<^verbatim>\<open>map\<close>, after \<^verbatim>\<open>books\<close> was assigned and before \<^verbatim>\<open>tags\<close> is,
      with nothing saved or rendered.\<close>
  "importBackup ckey doc st =
     (case doc of
        Malformed \<Rightarrow> (Failed ImportError, st)
      | JsonNull \<Rightarrow> (Failed ImportError, st)
      | Json parsed \<Rightarrow>
          (let st1 = (case doc_books parsed of Some bs \<Rightarrow> st\<lparr>books := bs\<rparr> | None \<Rightarrow> st)
           in case doc_tags parsed of
                None \<Rightarrow> (Done, renderAll ckey (saveTags (saveBooks st1)))
              | Some es \<Rightarrow>
                  (case map_entries es of
                     None \<Rightarrow> (Failed ImportError, st1)
                   | Some mapped \<Rightarrow>
                       (Done, renderAll ckey (saveTags (saveBooks
                          (st1\<lparr>tags := array_sort (tag_cmp ckey) mapped\<rparr>)))))))"

subsection \<open>A host for concrete runs\<close>

text \<open>
  Concrete runs need the host functions. Finite numbers are integers here. \<open>Number_dec\<close> is
  \<^verbatim>\<open>Number\<close> on the strings that are, between white space, empty, an optionally signed
  \<^verbatim>\<open>Infinity\<close>, an optionally signed run of decimal digits below \<open>2^53\<close>, or no numeric
  literal at all; literals with a fraction, an exponent or a radix prefix are outside this
  fragment. \<open>show_int\<close> prints an integer as \<^verbatim>\<open>Number.prototype.toString\<close> does below
  \<open>10^21\<close>, and \<open>code_unit_key\<close> collates by code units.
\<close>

definition is_digit :: "char \<Rightarrow> bool" where
  "is_digit c = (48 \<le> (of_char c :: nat) \<and> (of_char c :: nat) \<le> 57)"

definition digits_value :: "string \<Rightarrow> nat" where
  "digits_value ds = foldl (\<lambda>v c. 10 * v + (of_char c - 48)) 0 ds"

definition Number_dec :: "string \<Rightarrow> int jsnum" where
  "Number_dec s =
     (let t = trim s
      in if t = [] then Fin 0
         else if t = ''Infinity'' \<or> t = ''+Infinity'' then PosInf
         else if t = ''-Infinity'' then NegInf
         else if list_all is_digit t then Fin (int (digits_value t))
         else if tl t \<noteq> [] \<and> list_all is_digit (tl t) \<and> hd t = CHR ''-''
           then Fin (- int (digits_value (tl t)))
         else if tl t \<noteq> [] \<and> list_all is_digit (tl t) \<and> hd t = CHR ''+''
           then Fin (int (digits_value (tl t)))
         else NaN)"

definition show_int :: "int \<Rightarrow> string" where
  "show_int i = (if i < 0 then CHR ''-'' # show_nat (nat (- i)) else show_nat (nat i))"

definition code_unit_key :: "string \<Rightarrow> string" where
  "code_unit_key s = s"

subsection \<open>Properties stated of the program\<close>

definition tags_sorted :: "(string \<Rightarrow> 'k::linorder) \<Rightarrow> tag list \<Rightarrow> bool" where
  \<comment> \<open>Ascending by name in the collation of the host.\<close>
  "tags_sorted ckey ts = sorted (map (\<lambda>t. ckey (name t)) ts)"

definition add_form :: form where
  \<comment> \<open>The draft \<^verbatim>\<open>{title:"", author:"X"}\<close> in the form opened by \<^verbatim>\<open>openForm('add')\<close>.\<close>
  "add_form = \<lparr>editingIndex = - 1, f_title = [], f_author = ''X'', f_year = [], f_link = [],
                formTags = []\<rparr>"

definition first_run :: "int state" where
  "first_run = startup code_unit_key NoItem NoItem"

definition tag_Math :: tag where
  "tag_Math = \<lparr>name = ''Math'', color = ''#2f9e44''\<rparr>"
definition tag_Physics :: tag where
  "tag_Physics = \<lparr>name = ''Physics'', color = ''#d9480f''\<rparr>"
definition tag_Biology :: tag where
  "tag_Biology = \<lparr>name = ''Biology'', color = ''#8d6e21''\<rparr>"

definition entry_name :: "tag_entry \<Rightarrow> string option" where
  \<comment> \<open>The name a tag gets from an entry; none from an entry on which the import throws.\<close>
  "entry_name e = (case e of BareName t \<Rightarrow> Some t | TagObject n c \<Rightarrow> Some n | Throwing \<Rightarrow> None)"

definition null_entry_backup :: "int backup" where
  \<comment> \<open>The document \<^verbatim>\<open>{"books": [], "tags": ["A", null]}\<close>.\<close>
  "null_entry_backup = \<lparr>doc_books = Some [], doc_tags = Some [BareName ''A'', Throwing]\<rparr>"

definition dup_backup :: "int backup" where
  \<comment> \<open>The document \<^verbatim>\<open>{"tags": ["A", "A"]}\<close>.\<close>
  "dup_backup = \<lparr>doc_books = None, doc_tags = Some [BareName ''A'', BareName ''A'']\<rparr>"

definition book_B :: "int book" where
  "book_B = \<lparr>title = ''B'', author = ''A'', year = YearNum (Fin 2001), link = [], btags = []\<rparr>"

definition book_A :: "int book" where
  "book_A = \<lparr>title = ''A'', author = ''Z'', year = YearNum (Fin 1999), link = [], btags = []\<rparr>"

definition example_state :: "int state" where
  \<comment> \<open>The books \<^verbatim>\<open>[{title:"B",author:"A",year:2001},{title:"A",author:"Z",year:1999}]\<close>,
      imported after a first start.\<close>
  "example_state = first_run\<lparr>books := [book_B, book_A], storage_books := Stored [book_B, book_A]\<rparr>"

definition stale_form :: form where
  \<comment> \<open>A valid draft with an index that no book has.\<close>
  "stale_form = \<lparr>editingIndex = 7, f_title = ''C'', f_author = ''D'', f_year = ''2020'', f_link = [],
                  formTags = []\<rparr>"

definition book_C :: "int book" where
  "book_C = \<lparr>title = ''C'', author = ''D'', year = YearNum (Fin 2020), link = [], btags = []\<rparr>"

definition form_book :: "(string \<Rightarrow> 'k::linorder) \<Rightarrow> (string \<Rightarrow> 'n jsnum) \<Rightarrow> form \<Rightarrow> 'n book" where
  \<comment> \<open>\<^verbatim>\<open>bookObj\<close> of \<^verbatim>\<open>saveForm\<close>.\<close>
  "form_book ckey Number fm =
     \<lparr>title = trim (f_title fm), author = trim (f_author fm),
      year = form_year Number (f_year fm), link = trim (f_link fm),
      btags = array_sort (localeCompare ckey) (uniq (formTags fm))\<rparr>"

text \<open>
  The predicates of the visible books, written from the specification and not from the
  code: a substring is a \<open>sublist\<close>, the tag names are put together by \<open>separated\<close>, the
  string of a year is spelled out, the selected tags are a subset.
\<close>

definition separated :: "char \<Rightarrow> string list \<Rightarrow> string" where
  \<comment> \<open>The strings one after the other with the separator between neighbours.\<close>
  "separated c xs = drop 1 (concat (map (\<lambda>x. c # x) xs))"

definition matches_text :: "string \<Rightarrow> 'n book \<Rightarrow> bool" where
  \<comment> \<open>Case-insensitive substring match of the trimmed query against the title, the author,
      or the tag names put together with a space between them; no query matches everything.\<close>
  "matches_text query b =
     (let q = toLowerCase (trim query)
      in q = [] \<or> sublist q (toLowerCase (title b)) \<or> sublist q (toLowerCase (author b))
         \<or> sublist q (toLowerCase (separated CHR '' '' (btags b))))"

definition matches_author :: "string \<Rightarrow> 'n book \<Rightarrow> bool" where
  "matches_author selected b = (selected = [] \<or> author b = selected)"

definition year_text :: "('n \<Rightarrow> string) \<Rightarrow> 'n yearval \<Rightarrow> string" where
  \<comment> \<open>A year as the year filter lists it: a string as it is, a number printed.\<close>
  "year_text numToString y =
     (case y of
        YearStr s \<Rightarrow> s
      | YearNum (Fin n) \<Rightarrow> numToString n
      | YearNum PosInf \<Rightarrow> ''Infinity''
      | YearNum NegInf \<Rightarrow> ''-Infinity''
      | YearNum NaN \<Rightarrow> ''NaN''
      | YearNull \<Rightarrow> ''null'')"

definition matches_year :: "('n \<Rightarrow> string) \<Rightarrow> string \<Rightarrow> 'n book \<Rightarrow> bool" where
  "matches_year numToString selected b =
     (selected = [] \<or> year_text numToString (year b) = selected)"

definition matches_tags :: "string list \<Rightarrow> 'n book \<Rightarrow> bool" where
  \<comment> \<open>All selected tags, not one of them.\<close>
  "matches_tags selected b = (set selected \<subseteq> set (btags b))"

definition visible :: "('n \<Rightarrow> string) \<Rightarrow> filters \<Rightarrow> 'n book \<Rightarrow> bool" where
  "visible numToString fs b =
     (matches_text (searchInput fs) b \<and> matches_author (authorFilter fs) b
      \<and> matches_year numToString (yearFilter fs) b \<and> matches_tags (filterTags fs) b)"

definition physics_book :: "int book" where
  "physics_book = \<lparr>title = ''Optics'', author = ''Newton'', year = YearNum (Fin 1704), link = [],
                    btags = [''Math'', ''Physics'']\<rparr>"


definition no_filter :: filters where
  "no_filter = \<lparr>searchInput = [], authorFilter = [], yearFilter = [], filterTags = []\<rparr>"

definition shelf :: "int state" where
  \<comment> \<open>Three books after a first start: B by A of 2001, A by Z of 1999, Optics by Newton of
      1704 with the tags Math and Physics.\<close>
  "shelf = first_run\<lparr>books := [book_B, book_A, physics_book],
                     storage_books := Stored [book_B, book_A, physics_book]\<rparr>"

definition chosen_field :: "('n \<Rightarrow> string) \<Rightarrow> string \<Rightarrow> 'n book \<Rightarrow> string" where
  \<comment> \<open>The field that the key names, as a string, written from the specification: a book
      has five fields; a year that is \<^verbatim>\<open>null\<close> and a field that no book has count as the
      empty string; a number is printed; tag names are listed with commas.\<close>
  "chosen_field numToString key b =
     (case map_of
        [(''title'', title b),
         (''author'', author b),
         (''year'', (case year b of YearNull \<Rightarrow> [] | y \<Rightarrow> year_text numToString y)),
         (''link'', link b),
         (''tags'', separated CHR '','' (btags b))] key
      of Some s \<Rightarrow> s | None \<Rightarrow> [])"

definition sort_field :: "('n \<Rightarrow> string) \<Rightarrow> string \<Rightarrow> 'n book \<Rightarrow> string" where
  \<comment> \<open>The chosen field as a string, letter case aside.\<close>
  "sort_field numToString key b = toLowerCase (chosen_field numToString key b)"

definition sorted_in :: "int \<Rightarrow> string list \<Rightarrow> bool" where
  \<comment> \<open>Ascending for the order 1, descending for the order -1.\<close>
  "sorted_in order ks = (if order = 1 then sorted ks else sorted (rev ks))"

text \<open>
  The states the program reaches: the first start on empty storage, and from a reachable
  state every user action, one rule for each function that an event handler calls
  (\<^verbatim>\<open>openForm\<close> writes a global only through \<^verbatim>\<open>renderTagControls\<close>); loading the page again
  starts the script on the storage as it stands.
\<close>

inductive reachable ::
  "(string \<Rightarrow> 'k::linorder) \<Rightarrow> (string \<Rightarrow> 'n jsnum) \<Rightarrow> ('n \<Rightarrow> string) \<Rightarrow> 'n state \<Rightarrow> bool"
  for ckey :: "string \<Rightarrow> 'k" and Number :: "string \<Rightarrow> 'n jsnum" and numToString :: "'n \<Rightarrow> string"
  where
    first_start: "reachable ckey Number numToString (startup ckey NoItem NoItem)"
  | reload: "reachable ckey Number numToString st \<Longrightarrow>
      reachable ckey Number numToString (startup ckey (storage_books st) (storage_tags st))"
  | open_form: "reachable ckey Number numToString st \<Longrightarrow>
      reachable ckey Number numToString (renderTagControls ckey st)"
  | add_tag: "reachable ckey Number numToString st \<Longrightarrow>
      reachable ckey Number numToString (addCustomTagFromInput ckey v st)"
  | save: "reachable ckey Number numToString st \<Longrightarrow>
      reachable ckey Number numToString (snd (saveForm ckey Number fm st))"
  | delete_form: "reachable ckey Number numToString st \<Longrightarrow>
      reachable ckey Number numToString (deleteFromForm ckey confirmed i st)"
  | delete_book: "reachable ckey Number numToString st \<Longrightarrow>
      reachable ckey Number numToString (deleteBook ckey confirmed i st)"
  | delete_tag: "reachable ckey Number numToString st \<Longrightarrow>
      reachable ckey Number numToString (deleteTag ckey confirmed n st)"
  | sort: "reachable ckey Number numToString st \<Longrightarrow>
      reachable ckey Number numToString (sortBy numToString key st)"
  | import: "reachable ckey Number numToString st \<Longrightarrow>
      reachable ckey Number numToString (snd (importBackup ckey doc st))"

definition finite_year :: "'n yearval \<Rightarrow> bool" where
  \<comment> \<open>No \<^verbatim>\<open>NaN\<close>, \<^verbatim>\<open>Infinity\<close> or \<^verbatim>\<open>-Infinity\<close>.\<close>
  "finite_year y = (case y of YearNum (Fin n) \<Rightarrow> True | YearNum _ \<Rightarrow> False | _ \<Rightarrow> True)"

definition colors_ok :: "tag list \<Rightarrow> bool" where
  "colors_ok ts = list_all (\<lambda>t. color t \<noteq> []) ts"

definition slot_ok :: "tag list item \<Rightarrow> bool" where
  "slot_ok slot = (case slot of Stored ts \<Rightarrow> colors_ok ts | _ \<Rightarrow> True)"

definition tag_inv :: "(string \<Rightarrow> 'k::linorder) \<Rightarrow> 'n state \<Rightarrow> bool" where
  \<comment> \<open>What every reachable state has: sorted tags, and a color for every tag in the store
      and in the storage slot.\<close>
  "tag_inv ckey st = (tags_sorted ckey (tags st) \<and> colors_ok (tags st) \<and> slot_ok (storage_tags st))"

definition inf_form :: form where
  \<comment> \<open>A new book whose year field holds the text \<^verbatim>\<open>Infinity\<close>.\<close>
  "inf_form = \<lparr>editingIndex = - 1, f_title = ''T'', f_author = ''U'', f_year = ''Infinity'',
                f_link = [], formTags = []\<rparr>"

definition inf_state :: "int state" where
  "inf_state = snd (saveForm code_unit_key Number_dec inf_form first_run)"

fun indexOf :: "'a list \<Rightarrow> 'a \<Rightarrow> int" where
  \<comment> \<open>\<^verbatim>\<open>xs.indexOf(x)\<close>: the first position of \<open>x\<close>, or -1. Books are compared by their
      fields here and by identity in the code; a book of the list is found at a position
      of the list either way.\<close>
  "indexOf [] x = - 1"
| "indexOf (y # ys) x =
     (if y = x then 0 else (let i = indexOf ys x in if i < 0 then - 1 else i + 1))"


section \<open>Verification\<close>

subsection \<open>Sorting\<close>

lemma set_insert_sorted: "set (insert_sorted cmp x xs) = insert x (set xs)"
  by (induction xs) auto

lemma mset_insert_sorted: "mset (insert_sorted cmp x xs) = add_mset x (mset xs)"
  by (induction xs) auto

lemma array_sort_Nil: "array_sort cmp [] = []"
  by (simp add: array_sort_def)

lemma array_sort_Cons: "array_sort cmp (x # xs) = insert_sorted cmp x (array_sort cmp xs)"
  by (simp add: array_sort_def)

lemma mset_array_sort: "mset (array_sort cmp xs) = mset xs"
  by (induction xs) (simp_all add: array_sort_Nil array_sort_Cons mset_insert_sorted)

lemma set_array_sort: "set (array_sort cmp xs) = set xs"
  using mset_array_sort [of cmp xs] by (metis set_mset_mset)

lemma length_array_sort: "length (array_sort cmp xs) = length xs"
  using mset_array_sort [of cmp xs] by (metis size_mset)

lemma sorted_wrt_insert_sorted:
  assumes total: "\<And>a b. R a b \<or> R b a"
    and trans: "\<And>a b c. R a b \<Longrightarrow> R b c \<Longrightarrow> R a c"
    and cmp: "\<And>a b. R a b \<longleftrightarrow> cmp a b \<le> 0"
    and srt: "sorted_wrt R xs"
  shows "sorted_wrt R (insert_sorted cmp x xs)"
  using srt
proof (induction xs)
  case Nil
  then show ?case by simp
next
  case (Cons y ys)
  show ?case
  proof (cases "cmp x y \<le> 0")
    case True
    then have xy: "R x y" by (simp add: cmp)
    have "\<forall>z\<in>set ys. R x z"
      using Cons.prems xy trans by auto
    with True xy Cons.prems show ?thesis by simp
  next
    case False
    then have "R y x" using total [of x y] by (simp add: cmp)
    with False Cons show ?thesis by (auto simp: set_insert_sorted)
  qed
qed

lemma sorted_wrt_array_sort:
  assumes "\<And>a b. R a b \<or> R b a"
    and "\<And>a b c. R a b \<Longrightarrow> R b c \<Longrightarrow> R a c"
    and "\<And>a b. R a b \<longleftrightarrow> cmp a b \<le> 0"
  shows "sorted_wrt R (array_sort cmp xs)"
proof (induction xs)
  case Nil
  show ?case by (simp add: array_sort_Nil)
next
  case (Cons x xs)
  show ?case
    unfolding array_sort_Cons
    by (rule sorted_wrt_insert_sorted [where R = R, OF assms Cons.IH])
qed

lemma array_sort_fixed:
  assumes cmp: "\<And>a b. R a b \<longleftrightarrow> cmp a b \<le> 0"
    and srt: "sorted_wrt R xs"
  shows "array_sort cmp xs = xs"
  using srt
proof (induction xs)
  case Nil
  show ?case by (simp add: array_sort_Nil)
next
  case (Cons x xs)
  then have "array_sort cmp xs = xs" by simp
  moreover have "insert_sorted cmp x xs = x # xs"
    using Cons.prems by (cases xs) (auto simp: cmp)
  ultimately show ?case by (simp add: array_sort_Cons)
qed

lemma tag_cmp_le: "tag_cmp ckey a b \<le> 0 \<longleftrightarrow> ckey (name a) \<le> ckey (name b)"
  by (auto simp: tag_cmp_def localeCompare_def)

lemma tags_sorted_wrt: "tags_sorted ckey ts = sorted_wrt (\<lambda>a b. ckey (name a) \<le> ckey (name b)) ts"
  by (simp add: tags_sorted_def sorted_map)

lemma tags_sorted_array_sort: "tags_sorted ckey (array_sort (tag_cmp ckey) ts)"
  unfolding tags_sorted_wrt
  by (rule sorted_wrt_array_sort) (auto simp: tag_cmp_le)

lemma array_sort_tags_sorted: "tags_sorted ckey ts \<Longrightarrow> array_sort (tag_cmp ckey) ts = ts"
  unfolding tags_sorted_wrt
  by (rule array_sort_fixed [where R = "\<lambda>a b. ckey (name a) \<le> ckey (name b)"]) (auto simp: tag_cmp_le)

lemma tags_sorted_filter: "tags_sorted ckey ts \<Longrightarrow> tags_sorted ckey (filter P ts)"
  unfolding tags_sorted_wrt by (rule sorted_wrt_filter)

subsection \<open>Looking up and adding a tag\<close>

lemma find_unique:
  assumes "t \<in> set xs" and "P t" and "\<forall>u\<in>set xs. P u \<longrightarrow> u = t"
  shows "find P xs = Some t"
  using assms(1,3)
proof (induction xs)
  case Nil
  then show ?case by simp
next
  case (Cons x xs)
  show ?case
  proof (cases "P x")
    case True
    with Cons.prems(2) have "x = t" by simp
    with True show ?thesis by simp
  next
    case False
    with Cons.prems(1) assms(2) have "t \<in> set xs" by auto
    moreover from Cons.prems(2) have "\<forall>u\<in>set xs. P u \<longrightarrow> u = t" by simp
    ultimately have "find P xs = Some t" by (rule Cons.IH)
    with False show ?thesis by simp
  qed
qed

lemma findTagByName_None: "findTagByName n ts = None \<longleftrightarrow> n \<notin> name ` set ts"
  by (auto simp: findTagByName_def find_None_iff)

lemma findTagByName_Some: "findTagByName n ts = Some t \<Longrightarrow> t \<in> set ts \<and> name t = n"
  by (auto simp: findTagByName_def find_Some_iff)

lemma array_sort_twice: "array_sort (tag_cmp ckey) (array_sort (tag_cmp ckey) ts) = array_sort (tag_cmp ckey) ts"
  by (rule array_sort_tags_sorted) (rule tags_sorted_array_sort)

lemma ensureTagExists_empty: "trim n = [] \<Longrightarrow> ensureTagExists ckey n st = (None, st)"
  by (simp add: ensureTagExists_def)

lemma ensureTagExists_existing:
  "trim n \<noteq> [] \<Longrightarrow> findTagByName (trim n) (tags st) = Some e \<Longrightarrow>
   ensureTagExists ckey n st = (Some e, st)"
  by (simp add: ensureTagExists_def)

lemma ensureTagExists_new:
  "trim n \<noteq> [] \<Longrightarrow> findTagByName (trim n) (tags st) = None \<Longrightarrow>
   ensureTagExists ckey n st =
     (Some \<lparr>name = trim n, color = colorForTagName (trim n)\<rparr>,
      st\<lparr>tags := array_sort (tag_cmp ckey) (tags st @ [\<lparr>name = trim n, color = colorForTagName (trim n)\<rparr>]),
         storage_tags := Stored (array_sort (tag_cmp ckey) (tags st @ [\<lparr>name = trim n, color = colorForTagName (trim n)\<rparr>]))\<rparr>)"
  by (simp add: ensureTagExists_def Let_def saveTags_def renderTagControls_def array_sort_twice)

lemma find_new_tag:
  assumes "findTagByName n ts = None" and "name t = n"
  shows "findTagByName n (array_sort cmp (ts @ [t])) = Some t"
  unfolding findTagByName_def
proof (rule find_unique)
  show "t \<in> set (array_sort cmp (ts @ [t]))" by (simp add: set_array_sort)
  show "name t = n" by (rule assms)
  show "\<forall>u\<in>set (array_sort cmp (ts @ [t])). name u = n \<longrightarrow> u = t"
    using assms(1) by (auto simp: set_array_sort findTagByName_None)
qed

text \<open>
  Claim C8. For every tag name \<open>n\<close>, \<^verbatim>\<open>ensureTagExists(n)\<close> is idempotent: a second call
  returns what the first returned (the same tag, name and color) and leaves the state of the
  first call as it is, so the tag store has grown by at most one over the two calls; a name
  that is empty after trimming changes nothing and returns nothing (\<^verbatim>\<open>null\<close>); any other
  name returns the tag stored under the trimmed name.
\<close>

theorem ensureTag_idempotent:
  "ensureTagExists ckey n (snd (ensureTagExists ckey n st)) = ensureTagExists ckey n st
   \<and> length (tags (snd (ensureTagExists ckey n st))) \<le> length (tags st) + 1
   \<and> (trim n = [] \<longrightarrow> ensureTagExists ckey n st = (None, st))
   \<and> (trim n \<noteq> [] \<longrightarrow>
        (\<exists>t. fst (ensureTagExists ckey n st) = Some t \<and> name t = trim n
             \<and> findTagByName (trim n) (tags (snd (ensureTagExists ckey n st))) = Some t))"
proof (cases "trim n = []")
  case True
  then show ?thesis by (simp add: ensureTagExists_empty)
next
  case ne: False
  show ?thesis
  proof (cases "findTagByName (trim n) (tags st)")
    case (Some e)
    with ne show ?thesis
      by (auto simp: ensureTagExists_existing dest: findTagByName_Some)
  next
    case None
    let ?t = "\<lparr>name = trim n, color = colorForTagName (trim n)\<rparr>"
    let ?ts = "array_sort (tag_cmp ckey) (tags st @ [?t])"
    let ?s1 = "st\<lparr>tags := ?ts, storage_tags := Stored ?ts\<rparr>"
    have first: "ensureTagExists ckey n st = (Some ?t, ?s1)"
      using ne None by (rule ensureTagExists_new)
    have found: "findTagByName (trim n) (tags ?s1) = Some ?t"
      using find_new_tag [OF None, of ?t] by simp
    have second: "ensureTagExists ckey n ?s1 = (Some ?t, ?s1)"
      using ne found by (rule ensureTagExists_existing)
    show ?thesis
      using ne found second by (simp add: first length_array_sort)
  qed
qed

theorem ensureTag_idempotent_witness:
  "trim ''  '' = [] \<and> trim '' Zoology '' \<noteq> []
   \<and> ensureTagExists code_unit_key ''  '' (startup code_unit_key (NoItem :: int book list item) NoItem)
       = (None, startup code_unit_key NoItem NoItem)
   \<and> (\<exists>t. fst (ensureTagExists code_unit_key '' Zoology '' (startup code_unit_key (NoItem :: int book list item) NoItem)) = Some t
          \<and> name t = ''Zoology'')"
proof -
  have e: "trim ''  '' = []" and ne: "trim '' Zoology '' = ''Zoology''"
    by (simp_all add: trim_def is_ws_def)
  show ?thesis
    using ensureTag_idempotent [of code_unit_key "''  ''" "startup code_unit_key (NoItem :: int book list item) NoItem"]
      ensureTag_idempotent [of code_unit_key "'' Zoology ''" "startup code_unit_key (NoItem :: int book list item) NoItem"]
    by (simp add: e ne) blast
qed

subsection \<open>Rejected drafts and rejected documents\<close>

text \<open>
  Claim C9. For every draft whose title or author is empty after trimming, \<^verbatim>\<open>saveForm\<close>
  (adding a book is \<^verbatim>\<open>saveForm\<close> with the index \<open>-1\<close>) stops at the validation message
  and leaves the whole state, book list and tag store included, as it was; the witness is
  the draft with title \<^verbatim>\<open>""\<close> and author \<^verbatim>\<open>"X"\<close>.
\<close>

theorem add_validation:
  "trim (f_title fm) = [] \<or> trim (f_author fm) = [] \<Longrightarrow>
   saveForm ckey Number fm st = (Failed ValidationError, st)"
  by (auto simp: saveForm_def Let_def)

theorem add_validation_witness:
  "(trim (f_title add_form) = [] \<or> trim (f_author add_form) = [])
   \<and> saveForm code_unit_key Number_dec add_form (startup code_unit_key NoItem NoItem)
       = (Failed ValidationError, startup code_unit_key NoItem NoItem)"
proof -
  have h: "trim (f_title add_form) = [] \<or> trim (f_author add_form) = []"
    by (simp add: add_form_def trim_def)
  show ?thesis
    using h add_validation [OF h, of code_unit_key Number_dec "startup code_unit_key NoItem NoItem"]
    by simp
qed

text \<open>
  Claim C4. For every document that \<^verbatim>\<open>JSON.parse\<close> rejects, \<^verbatim>\<open>importBackup\<close> reports the
  import error and the state, book list and tag store included, is what it was.
\<close>

theorem import_malformed:
  "importBackup ckey Malformed st = (Failed ImportError, st)"
  by (simp add: importBackup_def)

subsection \<open>Tags at start-up\<close>

lemma init_step_mono: "set ts \<subseteq> set (init_step pt ts)"
  by (auto simp: init_step_def)

lemma init_step_names: "name ` set (init_step pt ts) = insert (name pt) (name ` set ts)"
  by (auto simp: init_step_def findTagByName_None)

lemma fold_init_step_mono: "set ts \<subseteq> set (fold init_step ps ts)"
proof (induction ps arbitrary: ts)
  case Nil
  show ?case by simp
next
  case (Cons p ps)
  have "set ts \<subseteq> set (init_step p ts)" by (rule init_step_mono)
  also have "\<dots> \<subseteq> set (fold init_step ps (init_step p ts))" by (rule Cons.IH)
  finally show ?case by simp
qed

lemma fold_init_step_names:
  "name ` set (fold init_step ps ts) = name ` set ps \<union> name ` set ts"
  by (induction ps arbitrary: ts) (auto simp: init_step_names)

lemma fold_init_step_pushes:
  assumes "distinct (map name ps)" and "pt \<in> set ps" and "name pt \<notin> name ` set ts"
  shows "pt \<in> set (fold init_step ps ts)"
  using assms
proof (induction ps arbitrary: ts)
  case Nil
  then show ?case by simp
next
  case (Cons p ps)
  show ?case
  proof (cases "pt = p")
    case True
    with Cons.prems(3) have "pt \<in> set (init_step p ts)"
      by (simp add: init_step_def findTagByName_None)
    then show ?thesis using fold_init_step_mono [of "init_step p ts" ps] by auto
  next
    case False
    with Cons.prems(2) have in_ps: "pt \<in> set ps" by simp
    then have "name pt \<in> set (map name ps)" by simp
    moreover from Cons.prems(1) have "name p \<notin> set (map name ps)" by simp
    ultimately have "name pt \<noteq> name p" by metis
    with Cons.prems(3) have "name pt \<notin> name ` set (init_step p ts)"
      by (simp add: init_step_names)
    with Cons.prems(1) in_ps have "pt \<in> set (fold init_step ps (init_step p ts))"
      by (intro Cons.IH) simp_all
    then show ?thesis by simp
  qed
qed

lemma distinct_PREDEFINED: "distinct (map name PREDEFINED_TAGS)"
  by (simp add: PREDEFINED_TAGS_def)

lemma tags_init:
  "tags (init ckey st) = array_sort (tag_cmp ckey) (fold init_step PREDEFINED_TAGS (tags st))"
  by (simp add: init_def Let_def renderAll_def renderTagControls_def saveTags_def array_sort_twice)

lemma storage_tags_init: "storage_tags (init ckey st) = Stored (tags (init ckey st))"
  by (simp add: init_def Let_def renderAll_def renderTagControls_def saveTags_def array_sort_twice)

lemma tags_startup:
  "tags (startup ckey rb rt) =
     array_sort (tag_cmp ckey) (fold init_step PREDEFINED_TAGS (fst (loadTags ckey rt)))"
  by (simp add: startup_def tags_init split: prod.splits)

lemma storage_tags_startup:
  "storage_tags (startup ckey rb rt) = Stored (tags (startup ckey rb rt))"
  by (simp add: startup_def storage_tags_init split: prod.splits)

lemma startup_present:
  "pt \<in> set PREDEFINED_TAGS \<Longrightarrow> findTagByName (name pt) (tags (startup ckey rb rt)) \<noteq> None"
  by (simp add: findTagByName_None tags_startup set_array_sort fold_init_step_names)

lemma startup_pushed:
  assumes "pt \<in> set PREDEFINED_TAGS"
    and "findTagByName (name pt) (fst (loadTags ckey rt)) = None"
  shows "pt \<in> set (tags (startup ckey rb rt))"
  using fold_init_step_pushes [OF distinct_PREDEFINED assms(1), of "fst (loadTags ckey rt)"] assms(2)
  by (simp add: findTagByName_None tags_startup set_array_sort)

text \<open>
  Claim C10. Whatever the two storage slots hold when the script loads, after \<^verbatim>\<open>init\<close> every
  predefined tag name (Math, Physics, Biology) is the name of a tag in the store; a predefined
  tag whose name is missing from the loaded list is pushed as it is; the tag slot holds the
  resulting store; and so deleting a predefined tag does not outlast the next load.
\<close>

theorem init_restores_predefined:
  "(\<forall>pt\<in>set PREDEFINED_TAGS.
      findTagByName (name pt) (tags (startup ckey raw_books raw_tags)) \<noteq> None
      \<and> (findTagByName (name pt) (fst (loadTags ckey raw_tags)) = None
           \<longrightarrow> pt \<in> set (tags (startup ckey raw_books raw_tags))))
   \<and> storage_tags (startup ckey raw_books raw_tags) = Stored (tags (startup ckey raw_books raw_tags))
   \<and> (\<forall>pt\<in>set PREDEFINED_TAGS.
        findTagByName (name pt)
          (tags (startup ckey (storage_books (deleteTag ckey True (name pt) st))
                              (storage_tags (deleteTag ckey True (name pt) st)))) \<noteq> None)"
proof (intro conjI ballI impI)
  fix pt
  assume pt: "pt \<in> set PREDEFINED_TAGS"
  show "findTagByName (name pt) (tags (startup ckey raw_books raw_tags)) \<noteq> None"
    using pt by (rule startup_present)
  show "findTagByName (name pt)
          (tags (startup ckey (storage_books (deleteTag ckey True (name pt) st))
                              (storage_tags (deleteTag ckey True (name pt) st)))) \<noteq> None"
    using pt by (rule startup_present)
  assume "findTagByName (name pt) (fst (loadTags ckey raw_tags)) = None"
  with pt show "pt \<in> set (tags (startup ckey raw_books raw_tags))"
    by (rule startup_pushed)
next
  show "storage_tags (startup ckey raw_books raw_tags) = Stored (tags (startup ckey raw_books raw_tags))"
    by (rule storage_tags_startup)
qed

lemmas run_defs =
  array_sort_def tag_cmp_def localeCompare_def code_unit_key_def renderAll_def
  renderTagControls_def saveTags_def saveBooks_def findTagByName_def Let_def

lemma first_run_eval:
  "first_run = \<lparr>books = [], tags = [tag_Biology, tag_Math, tag_Physics], lastSortKey = None,
      sortOrder = 1, storage_books = NoItem,
      storage_tags = Stored [tag_Biology, tag_Math, tag_Physics]\<rparr>"
  by (simp add: first_run_def startup_def loadTags_def loadBooks_def init_def init_step_def
      PREDEFINED_TAGS_def tag_Math_def tag_Physics_def tag_Biology_def run_defs)

lemma delete_Math_eval:
  "deleteTag code_unit_key True ''Math'' first_run =
     \<lparr>books = [], tags = [tag_Biology, tag_Physics], lastSortKey = None,
      sortOrder = 1, storage_books = Stored [],
      storage_tags = Stored [tag_Biology, tag_Physics]\<rparr>"
  by (simp add: first_run_eval deleteTag_def tag_Math_def tag_Physics_def tag_Biology_def run_defs)

theorem init_restores_predefined_witness:
  "tag_Math \<in> set PREDEFINED_TAGS
   \<and> findTagByName ''Math'' (tags (deleteTag code_unit_key True ''Math'' first_run)) = None
   \<and> findTagByName ''Math''
        (fst (loadTags code_unit_key (storage_tags (deleteTag code_unit_key True ''Math'' first_run)))) = None
   \<and> tag_Math \<in> set (tags (startup code_unit_key
          (storage_books (deleteTag code_unit_key True ''Math'' first_run))
          (storage_tags (deleteTag code_unit_key True ''Math'' first_run))))"
proof -
  have pt: "tag_Math \<in> set PREDEFINED_TAGS"
    by (simp add: PREDEFINED_TAGS_def tag_Math_def)
  have gone: "findTagByName ''Math'' (tags (deleteTag code_unit_key True ''Math'' first_run)) = None"
    by (simp add: delete_Math_eval findTagByName_def tag_Biology_def tag_Physics_def)
  have loaded: "findTagByName (name tag_Math)
      (fst (loadTags code_unit_key (storage_tags (deleteTag code_unit_key True ''Math'' first_run)))) = None"
    by (simp add: delete_Math_eval loadTags_def tag_Math_def tag_Biology_def tag_Physics_def run_defs)
  from init_restores_predefined [of code_unit_key
      "storage_books (deleteTag code_unit_key True ''Math'' first_run)"
      "storage_tags (deleteTag code_unit_key True ''Math'' first_run)" first_run]
  have "tag_Math \<in> set (tags (startup code_unit_key
          (storage_books (deleteTag code_unit_key True ''Math'' first_run))
          (storage_tags (deleteTag code_unit_key True ''Math'' first_run))))"
    using pt loaded by blast
  with pt gone loaded show ?thesis by (simp add: tag_Math_def)
qed

subsection \<open>The tag store: order and duplicates\<close>

lemma names_array_sort: "mset (map name (array_sort cmp ts)) = mset (map name ts)"
  using mset_array_sort [of cmp ts] by (metis mset_map)

lemma distinct_names_array_sort:
  "distinct (map name (array_sort cmp ts)) = distinct (map name ts)"
  using names_array_sort [of cmp ts] by (metis mset_eq_imp_distinct_iff)

lemma map_entries_Nil: "map_entries [] = Some []"
  by (simp add: map_entries_def)

lemma map_entries_Cons:
  "map_entries (e # es) =
     (case import_tag e of None \<Rightarrow> None | Some t \<Rightarrow> map_option (Cons t) (map_entries es))"
  by (simp add: map_entries_def split: option.splits)

lemma map_entries_None: "map_entries es = None \<longleftrightarrow> Throwing \<in> set es"
proof (induction es)
  case Nil
  show ?case by (simp add: map_entries_Nil)
next
  case (Cons e es)
  then show ?case by (cases e) (auto simp: map_entries_Cons)
qed

lemma map_entries_Some: "map_entries es = Some ts \<Longrightarrow> map import_tag es = map Some ts"
proof (induction es arbitrary: ts)
  case Nil
  then show ?case by (simp add: map_entries_Nil)
next
  case (Cons e es)
  then show ?case
    by (auto simp: map_entries_Cons split: option.splits)
qed

lemma entry_name_import_tag: "entry_name e = map_option name (import_tag e)"
  by (cases e) (simp_all add: entry_name_def)

lemma map_entries_names:
  assumes "map_entries es = Some ts"
  shows "map (\<lambda>t. Some (name t)) ts = map entry_name es"
proof -
  have "map entry_name es = map (map_option name) (map import_tag es)"
    by (simp add: entry_name_import_tag)
  also have "\<dots> = map (map_option name) (map Some ts)"
    using assms by (simp only: map_entries_Some)
  finally show ?thesis by simp
qed

lemma tags_renderAll: "tags (renderAll ckey st) = array_sort (tag_cmp ckey) (tags st)"
  by (simp add: renderAll_def renderTagControls_def)

lemma tags_sorted_renderAll: "tags_sorted ckey (tags (renderAll ckey st))"
  by (simp add: tags_renderAll tags_sorted_array_sort)

lemma tags_sorted_startup: "tags_sorted ckey (tags (startup ckey rb rt))"
  by (simp add: tags_startup tags_sorted_array_sort)

lemma importBackup_rejected:
  "importBackup ckey Malformed st = (Failed ImportError, st)"
  "importBackup ckey JsonNull st = (Failed ImportError, st)"
  by (simp_all add: importBackup_def)

lemma importBackup_throwing:
  "doc_tags d = Some es \<Longrightarrow> Throwing \<in> set es \<Longrightarrow>
   importBackup ckey (Json d) st =
     (Failed ImportError, case doc_books d of Some bs \<Rightarrow> st\<lparr>books := bs\<rparr> | None \<Rightarrow> st)"
  by (simp add: importBackup_def Let_def map_entries_None [symmetric])

lemma importBackup_tags:
  "doc_tags d = Some es \<Longrightarrow> map_entries es = Some ts \<Longrightarrow>
   importBackup ckey (Json d) st =
     (Done, renderAll ckey (saveTags (saveBooks
        ((case doc_books d of Some bs \<Rightarrow> st\<lparr>books := bs\<rparr> | None \<Rightarrow> st)
           \<lparr>tags := array_sort (tag_cmp ckey) ts\<rparr>))))"
  by (simp add: importBackup_def Let_def)

lemma importBackup_no_tags:
  "doc_tags d = None \<Longrightarrow>
   importBackup ckey (Json d) st =
     (Done, renderAll ckey (saveTags (saveBooks
        (case doc_books d of Some bs \<Rightarrow> st\<lparr>books := bs\<rparr> | None \<Rightarrow> st))))"
  by (simp add: importBackup_def Let_def)

lemma importBackup_cases:
  obtains (rejected) "doc = Malformed \<or> doc = JsonNull"
  | (throwing) d es where "doc = Json d" "doc_tags d = Some es" "Throwing \<in> set es"
  | (tags) d es ts where "doc = Json d" "doc_tags d = Some es" "map_entries es = Some ts"
  | (no_tags) d where "doc = Json d" "doc_tags d = None"
proof (cases doc)
  case (Json d)
  show ?thesis
  proof (cases "doc_tags d")
    case None
    with Json show ?thesis by (rule no_tags)
  next
    case (Some es)
    show ?thesis
    proof (cases "map_entries es")
      case None
      then have "Throwing \<in> set es" by (simp add: map_entries_None)
      with Json Some show ?thesis by (rule throwing)
    next
      case (Some ts)
      with Json \<open>doc_tags d = Some es\<close> show ?thesis by (rule tags)
    qed
  qed
qed (simp_all add: rejected)

lemma tags_case_books [simp]:
  "tags (case bo of Some bs \<Rightarrow> st\<lparr>books := bs\<rparr> | None \<Rightarrow> st) = tags st"
  by (cases bo) simp_all

lemma importBackup_failed_tags:
  "fst (importBackup ckey doc st) \<noteq> Done \<Longrightarrow> tags (snd (importBackup ckey doc st)) = tags st"
  by (cases doc rule: importBackup_cases)
     (auto simp: importBackup_rejected importBackup_throwing importBackup_tags importBackup_no_tags)

lemma importBackup_done_sorted:
  "fst (importBackup ckey doc st) = Done \<Longrightarrow> tags_sorted ckey (tags (snd (importBackup ckey doc st)))"
  by (cases doc rule: importBackup_cases)
     (auto simp: importBackup_rejected importBackup_throwing importBackup_tags importBackup_no_tags
        tags_sorted_renderAll)

lemma tags_sorted_importBackup:
  "tags_sorted ckey (tags st) \<Longrightarrow> tags_sorted ckey (tags (snd (importBackup ckey doc st)))"
  using importBackup_failed_tags [of ckey doc st] importBackup_done_sorted [of ckey doc st]
  by (cases "fst (importBackup ckey doc st) = Done") simp_all

lemma importBackup_done_iff:
  "doc_tags d = Some es \<Longrightarrow> fst (importBackup ckey (Json d) st) = Done \<longleftrightarrow> Throwing \<notin> set es"
  by (cases "map_entries es")
     (auto simp: importBackup_tags importBackup_throwing map_entries_None
        dest: map_entries_None [THEN iffD2])

lemma names_importBackup:
  assumes "doc_tags d = Some es" and "Throwing \<notin> set es"
  shows "mset (map (\<lambda>t. Some (name t)) (tags (snd (importBackup ckey (Json d) st))))
    = mset (map entry_name es)"
proof -
  from assms(2) obtain ts where ts: "map_entries es = Some ts"
    using map_entries_None [of es] by (cases "map_entries es") auto
  have "mset (tags (snd (importBackup ckey (Json d) st))) = mset ts"
    by (simp add: importBackup_tags [OF assms(1) ts] tags_renderAll saveTags_def saveBooks_def
        mset_array_sort)
  then have "mset (map (\<lambda>t. Some (name t)) (tags (snd (importBackup ckey (Json d) st))))
      = mset (map (\<lambda>t. Some (name t)) ts)"
    by (metis mset_map)
  then show ?thesis by (simp only: map_entries_names [OF ts])
qed

lemma tags_ensureTagExists:
  "tags (snd (ensureTagExists ckey n st)) =
     (if trim n = [] \<or> findTagByName (trim n) (tags st) \<noteq> None then tags st
      else array_sort (tag_cmp ckey) (tags st @ [\<lparr>name = trim n, color = colorForTagName (trim n)\<rparr>]))"
proof (cases "trim n = []")
  case True
  then show ?thesis by (simp add: ensureTagExists_empty)
next
  case ne: False
  show ?thesis
  proof (cases "findTagByName (trim n) (tags st)")
    case None
    with ne show ?thesis by (simp add: ensureTagExists_new)
  next
    case (Some e)
    with ne show ?thesis by (simp add: ensureTagExists_existing)
  qed
qed

lemma tags_sorted_ensureTagExists:
  "tags_sorted ckey (tags st) \<Longrightarrow> tags_sorted ckey (tags (snd (ensureTagExists ckey n st)))"
  by (simp add: tags_ensureTagExists tags_sorted_array_sort)

lemma distinct_ensureTagExists:
  "distinct (map name (tags st)) \<Longrightarrow> distinct (map name (tags (snd (ensureTagExists ckey n st))))"
  by (auto simp: tags_ensureTagExists distinct_names_array_sort findTagByName_None)

lemma tags_deleteTag:
  "tags (deleteTag ckey c n st) =
     (if findTagByName n (tags st) = None \<or> \<not> c then tags st
      else array_sort (tag_cmp ckey) (filter (\<lambda>t. name t \<noteq> n) (tags st)))"
  by (auto simp: deleteTag_def Let_def tags_renderAll saveTags_def saveBooks_def split: option.splits)

lemma tags_sorted_deleteTag:
  "tags_sorted ckey (tags st) \<Longrightarrow> tags_sorted ckey (tags (deleteTag ckey c n st))"
  by (simp add: tags_deleteTag tags_sorted_array_sort)

lemma distinct_deleteTag:
  "distinct (map name (tags st)) \<Longrightarrow> distinct (map name (tags (deleteTag ckey c n st)))"
  by (simp add: tags_deleteTag distinct_names_array_sort distinct_map_filter)

lemma distinct_init_step:
  "distinct (map name ts) \<Longrightarrow> distinct (map name (init_step pt ts))"
  by (auto simp: init_step_def findTagByName_None)

lemma distinct_fold_init_step:
  "distinct (map name ts) \<Longrightarrow> distinct (map name (fold init_step ps ts))"
  by (induction ps arbitrary: ts) (simp_all add: distinct_init_step)

lemma distinct_init:
  "distinct (map name (tags st)) \<Longrightarrow> distinct (map name (tags (init ckey st)))"
  by (simp add: tags_init distinct_names_array_sort distinct_fold_init_step)

lemma distinct_loadTags:
  "(case rt of Stored ts \<Rightarrow> distinct (map name ts) | _ \<Rightarrow> True) \<Longrightarrow>
   distinct (map name (fst (loadTags ckey rt)))"
  by (cases rt)
     (simp_all add: loadTags_def Let_def distinct_names_array_sort distinct_PREDEFINED)

lemma distinct_startup:
  "(case rt of Stored ts \<Rightarrow> distinct (map name ts) | _ \<Rightarrow> True) \<Longrightarrow>
   distinct (map name (tags (startup ckey rb rt)))"
  by (simp add: tags_startup distinct_names_array_sort distinct_fold_init_step distinct_loadTags)

text \<open>
  Claim C1, amended. After every mutating operation on the tag store the tag collection is
  sorted ascending by name in the collation of the host: loading with \<^verbatim>\<open>init\<close> and every
  import that succeeds leave it sorted; an import that fails (a text that is no JSON, the
  document \<^verbatim>\<open>null\<close>, or a \<^verbatim>\<open>tags\<close> entry on which the import throws) leaves the tag store
  as it was; \<^verbatim>\<open>ensureTagExists\<close>, \<^verbatim>\<open>deleteTag\<close> and every import keep a sorted store
  sorted. \<^verbatim>\<open>ensureTagExists\<close>, \<^verbatim>\<open>deleteTag\<close>, \<^verbatim>\<open>init\<close> and loading add no name that is
  present already: if no two tags share a name before, none do afterwards.
  \<^verbatim>\<open>importBackup\<close> removes no duplicate. For a document whose \<^verbatim>\<open>tags\<close> is an array of
  strings, objects with a string as name, and entries on which the import throws: the
  import succeeds exactly when no entry throws, and the store then holds one tag for every
  entry, under the name of the entry, so a name that the array repeats is repeated in the
  store.
\<close>

theorem tag_store_order:
  "tags_sorted ckey (tags (startup ckey raw_books raw_tags))
   \<and> (fst (importBackup ckey doc st) = Done \<longrightarrow>
        tags_sorted ckey (tags (snd (importBackup ckey doc st))))
   \<and> (fst (importBackup ckey doc st) \<noteq> Done \<longrightarrow>
        tags (snd (importBackup ckey doc st)) = tags st)
   \<and> (tags_sorted ckey (tags st) \<longrightarrow>
        tags_sorted ckey (tags (snd (ensureTagExists ckey n st)))
        \<and> tags_sorted ckey (tags (deleteTag ckey confirmed n st))
        \<and> tags_sorted ckey (tags (snd (importBackup ckey doc st))))
   \<and> (distinct (map name (tags st)) \<longrightarrow>
        distinct (map name (tags (snd (ensureTagExists ckey n st))))
        \<and> distinct (map name (tags (deleteTag ckey confirmed n st)))
        \<and> distinct (map name (tags (init ckey st))))
   \<and> ((case raw_tags of Stored ts \<Rightarrow> distinct (map name ts) | _ \<Rightarrow> True) \<longrightarrow>
        distinct (map name (tags (startup ckey raw_books raw_tags))))
   \<and> (\<forall>es. doc_tags d = Some es \<longrightarrow>
        (fst (importBackup ckey (Json d) st) = Done \<longleftrightarrow> Throwing \<notin> set es)
        \<and> (Throwing \<notin> set es \<longrightarrow>
             mset (map (\<lambda>t. Some (name t)) (tags (snd (importBackup ckey (Json d) st))))
               = mset (map entry_name es)))"
proof (intro conjI impI allI)
  assume "case raw_tags of Stored ts \<Rightarrow> distinct (map name ts) | _ \<Rightarrow> True"
  then show "distinct (map name (tags (startup ckey raw_books raw_tags)))"
    by (rule distinct_startup)
next
  show "tags_sorted ckey (tags (startup ckey raw_books raw_tags))"
    by (rule tags_sorted_startup)
  show "tags_sorted ckey (tags (snd (importBackup ckey doc st)))"
    if "fst (importBackup ckey doc st) = Done"
    using that by (rule importBackup_done_sorted)
  show "tags (snd (importBackup ckey doc st)) = tags st"
    if "fst (importBackup ckey doc st) \<noteq> Done"
    using that by (rule importBackup_failed_tags)
  show "fst (importBackup ckey (Json d) st) = Done \<longleftrightarrow> Throwing \<notin> set es"
    if "doc_tags d = Some es" for es
    using that by (rule importBackup_done_iff)
  show "mset (map (\<lambda>t. Some (name t)) (tags (snd (importBackup ckey (Json d) st))))
      = mset (map entry_name es)"
    if "doc_tags d = Some es" and "Throwing \<notin> set es" for es
    using that by (rule names_importBackup)
next
  assume srt: "tags_sorted ckey (tags st)"
  show "tags_sorted ckey (tags (snd (ensureTagExists ckey n st)))"
    using srt by (rule tags_sorted_ensureTagExists)
  show "tags_sorted ckey (tags (deleteTag ckey confirmed n st))"
    using srt by (rule tags_sorted_deleteTag)
  show "tags_sorted ckey (tags (snd (importBackup ckey doc st)))"
    using srt by (rule tags_sorted_importBackup)
next
  assume dst: "distinct (map name (tags st))"
  show "distinct (map name (tags (snd (ensureTagExists ckey n st))))"
    using dst by (rule distinct_ensureTagExists)
  show "distinct (map name (tags (deleteTag ckey confirmed n st)))"
    using dst by (rule distinct_deleteTag)
  show "distinct (map name (tags (init ckey st)))"
    using dst by (rule distinct_init)
qed

lemma dup_backup_names:
  "fst (importBackup code_unit_key (Json dup_backup) first_run) = Done"
  "map name (tags (snd (importBackup code_unit_key (Json dup_backup) first_run))) = [''A'', ''A'']"
proof -
  have m: "map_entries [BareName ''A'', BareName ''A''] =
      Some [\<lparr>name = ''A'', color = colorForTagName ''A''\<rparr>, \<lparr>name = ''A'', color = colorForTagName ''A''\<rparr>]"
    by (simp add: map_entries_def)
  have d: "doc_tags dup_backup = Some [BareName ''A'', BareName ''A'']"
    by (simp add: dup_backup_def)
  show "fst (importBackup code_unit_key (Json dup_backup) first_run) = Done"
    by (simp add: importBackup_tags [OF d m])
  show "map name (tags (snd (importBackup code_unit_key (Json dup_backup) first_run))) = [''A'', ''A'']"
    by (simp add: importBackup_tags [OF d m] tags_renderAll saveTags_def saveBooks_def)
       (simp add: array_sort_def tag_cmp_def localeCompare_def)
qed

text \<open>
  The claim as it was stated fails on the document \<^verbatim>\<open>{"tags": ["A", "A"]}\<close>: the import
  succeeds and the store then holds two tags named \<^verbatim>\<open>A\<close>.
\<close>

theorem tag_store_order_counterexample:
  "\<not> (tags_sorted code_unit_key (tags (snd (importBackup code_unit_key (Json dup_backup) first_run)))
      \<and> distinct (map name (tags (snd (importBackup code_unit_key (Json dup_backup) first_run)))))"
  by (simp add: dup_backup_names)

theorem tag_store_order_witness:
  "tags_sorted code_unit_key (tags first_run)
   \<and> distinct (map name (tags first_run))
   \<and> distinct (map name [tag_Biology, tag_Physics])
   \<and> doc_tags dup_backup = Some [BareName ''A'', BareName ''A'']
   \<and> Throwing \<notin> set [BareName ''A'', BareName ''A'']
   \<and> fst (importBackup code_unit_key (Json dup_backup) first_run) = Done
   \<and> fst (importBackup code_unit_key (Json null_entry_backup) first_run) \<noteq> Done
   \<and> tags (snd (importBackup code_unit_key (Json null_entry_backup) first_run)) = tags first_run
   \<and> tags_sorted code_unit_key (tags (snd (importBackup code_unit_key (Json dup_backup) first_run)))
   \<and> tags_sorted code_unit_key (tags (snd (ensureTagExists code_unit_key ''Zoology'' first_run)))
   \<and> distinct (map name (tags (deleteTag code_unit_key True ''Math'' first_run)))
   \<and> distinct (map name (tags (startup code_unit_key (NoItem :: int book list item)
         (Stored [tag_Biology, tag_Physics]))))
   \<and> mset (map (\<lambda>t. Some (name t)) (tags (snd (importBackup code_unit_key (Json dup_backup) first_run))))
       = mset [Some ''A'', Some ''A'']"
proof -
  have srt: "tags_sorted code_unit_key (tags first_run)"
    by (simp add: first_run_eval tags_sorted_def code_unit_key_def tag_Biology_def tag_Math_def
        tag_Physics_def)
  have dst: "distinct (map name (tags first_run))"
    by (simp add: first_run_eval tag_Biology_def tag_Math_def tag_Physics_def)
  have slot: "distinct (map name [tag_Biology, tag_Physics])"
    by (simp add: tag_Biology_def tag_Physics_def)
  have doc: "doc_tags dup_backup = Some [BareName ''A'', BareName ''A'']"
    by (simp add: dup_backup_def)
  have nothrow: "Throwing \<notin> set [BareName ''A'', BareName ''A'']"
    by simp
  have failed: "fst (importBackup code_unit_key (Json null_entry_backup) first_run) \<noteq> Done"
  proof -
    have "doc_tags null_entry_backup = Some [BareName ''A'', Throwing]"
      by (simp add: null_entry_backup_def)
    moreover have "Throwing \<in> set [BareName ''A'', Throwing]" by simp
    ultimately show ?thesis by (simp add: importBackup_throwing)
  qed
  note a = tag_store_order [of code_unit_key "NoItem :: int book list item"
      "Stored [tag_Biology, tag_Physics]" "Json dup_backup" first_run "''Zoology''" True dup_backup]
  note b = tag_store_order [of code_unit_key "NoItem :: int book list item"
      "Stored [tag_Biology, tag_Physics]" "Json null_entry_backup" first_run "''Math''" True dup_backup]
  from a doc nothrow have ok: "fst (importBackup code_unit_key (Json dup_backup) first_run) = Done"
    by blast
  from a ok have 0: "tags_sorted code_unit_key (tags (snd (importBackup code_unit_key (Json dup_backup) first_run)))"
    by blast
  from b failed have same: "tags (snd (importBackup code_unit_key (Json null_entry_backup) first_run)) = tags first_run"
    by blast
  from a srt have 1: "tags_sorted code_unit_key (tags (snd (ensureTagExists code_unit_key ''Zoology'' first_run)))"
    by blast
  from b dst have 2: "distinct (map name (tags (deleteTag code_unit_key True ''Math'' first_run)))"
    by blast
  from a slot have 3: "distinct (map name (tags (startup code_unit_key (NoItem :: int book list item)
         (Stored [tag_Biology, tag_Physics]))))"
    by simp
  from a doc nothrow
  have "mset (map (\<lambda>t. Some (name t)) (tags (snd (importBackup code_unit_key (Json dup_backup) first_run))))
      = mset (map entry_name [BareName ''A'', BareName ''A''])"
    by blast
  then have 4: "mset (map (\<lambda>t. Some (name t)) (tags (snd (importBackup code_unit_key (Json dup_backup) first_run))))
      = mset [Some ''A'', Some ''A'']"
    by (simp add: entry_name_def)
  from srt dst slot doc nothrow ok failed same 0 1 2 3 4 show ?thesis by blast
qed

subsection \<open>Saving and deleting books\<close>

lemma books_ensureTagExists: "books (snd (ensureTagExists ckey n st)) = books st"
proof (cases "trim n = []")
  case True
  then show ?thesis by (simp add: ensureTagExists_empty)
next
  case ne: False
  show ?thesis
  proof (cases "findTagByName (trim n) (tags st)")
    case None
    with ne show ?thesis by (simp add: ensureTagExists_new)
  next
    case (Some e)
    with ne show ?thesis by (simp add: ensureTagExists_existing)
  qed
qed

lemma books_fold_ensureTagExists:
  "books (fold (\<lambda>t s. snd (ensureTagExists ckey t s)) ns st) = books st"
  by (induction ns arbitrary: st) (simp_all add: books_ensureTagExists)

lemma books_renderAll: "books (renderAll ckey st) = books st"
  by (simp add: renderAll_def renderTagControls_def)

lemma books_saveBooks: "books (saveBooks st) = books st"
  by (simp add: saveBooks_def)

lemma saveForm_invalid:
  "trim (f_title fm) = [] \<or> trim (f_author fm) = [] \<Longrightarrow>
   saveForm ckey Number fm st = (Failed ValidationError, st)"
  by (auto simp: saveForm_def Let_def)

lemma saveForm_valid:
  assumes "trim (f_title fm) \<noteq> []" and "trim (f_author fm) \<noteq> []"
  shows "fst (saveForm ckey Number fm st) = Done"
    and "books (snd (saveForm ckey Number fm st)) =
      (if 0 \<le> editingIndex fm \<and> editingIndex fm < int (length (books st))
       then (books st)[nat (editingIndex fm) := form_book ckey Number fm]
       else books st @ [form_book ckey Number fm])"
  using assms
  by (simp_all add: saveForm_def Let_def books_renderAll books_saveBooks books_fold_ensureTagExists
      form_book_def)

text \<open>
  Claim C2, amended. \<^verbatim>\<open>saveForm\<close> has no index error. For every index outside the book list
  (negative, or at least its length): a draft whose title or author is empty after trimming
  is rejected with the validation message and nothing changes; every other draft succeeds
  and its book is appended at the end of the list, every book before it staying where it
  was.
\<close>

theorem saveForm_stale_index:
  assumes "editingIndex fm < 0 \<or> int (length (books st)) \<le> editingIndex fm"
  shows "(trim (f_title fm) = [] \<or> trim (f_author fm) = [] \<longrightarrow>
            saveForm ckey Number fm st = (Failed ValidationError, st))
       \<and> (trim (f_title fm) \<noteq> [] \<and> trim (f_author fm) \<noteq> [] \<longrightarrow>
            fst (saveForm ckey Number fm st) = Done
            \<and> books (snd (saveForm ckey Number fm st)) = books st @ [form_book ckey Number fm])"
  using assms by (auto simp: saveForm_invalid saveForm_valid)


lemma splice1_inside: "0 \<le> i \<Longrightarrow> i < int (length xs) \<Longrightarrow> splice1 i xs = take (nat i) xs @ drop (Suc (nat i)) xs"
  by (simp add: splice1_def Let_def Suc_nat_eq_nat_zadd1 add.commute)






lemma stale_form_book: "form_book code_unit_key Number_dec stale_form = book_C"
proof -
  have "Number_dec ''2020'' = Fin 2020" by code_simp
  then show ?thesis
    by (simp add: form_book_def stale_form_def book_C_def form_year_def trim_def is_ws_def
        array_sort_def)
qed

lemma stale_form_valid:
  "trim (f_title stale_form) \<noteq> []" "trim (f_author stale_form) \<noteq> []"
  by (simp_all add: stale_form_def trim_def is_ws_def)

text \<open>
  The claim as it was stated fails for a valid draft with the index 7 and a list of two
  books: the save succeeds and the list has a third book.
\<close>

theorem saveForm_stale_index_counterexample:
  "int (length (books example_state)) \<le> editingIndex stale_form
   \<and> fst (saveForm code_unit_key Number_dec stale_form example_state) = Done
   \<and> books (snd (saveForm code_unit_key Number_dec stale_form example_state)) = [book_B, book_A, book_C]
   \<and> books (snd (saveForm code_unit_key Number_dec stale_form example_state)) \<noteq> books example_state"
  by (simp add: saveForm_valid [OF stale_form_valid] stale_form_book)
     (simp add: example_state_def stale_form_def)

theorem saveForm_stale_index_witness:
  "(editingIndex stale_form < 0 \<or> int (length (books example_state)) \<le> editingIndex stale_form)
   \<and> trim (f_title stale_form) \<noteq> [] \<and> trim (f_author stale_form) \<noteq> []
   \<and> trim (f_title (stale_form\<lparr>f_title := ''  ''\<rparr>)) = []
   \<and> fst (saveForm code_unit_key Number_dec stale_form example_state) = Done
   \<and> books (snd (saveForm code_unit_key Number_dec stale_form example_state))
       = books example_state @ [book_C]
   \<and> saveForm code_unit_key Number_dec (stale_form\<lparr>f_title := ''  ''\<rparr>) example_state
       = (Failed ValidationError, example_state)"
proof -
  have idx: "editingIndex stale_form < 0 \<or> int (length (books example_state)) \<le> editingIndex stale_form"
    by (simp add: example_state_def stale_form_def)
  have idx': "editingIndex (stale_form\<lparr>f_title := ''  ''\<rparr>) < 0
      \<or> int (length (books example_state)) \<le> editingIndex (stale_form\<lparr>f_title := ''  ''\<rparr>)"
    by (simp add: example_state_def stale_form_def)
  have blank: "trim (f_title (stale_form\<lparr>f_title := ''  ''\<rparr>)) = []"
    by (simp add: trim_def is_ws_def)
  from saveForm_stale_index [OF idx, of code_unit_key Number_dec] stale_form_valid
  have ok: "fst (saveForm code_unit_key Number_dec stale_form example_state) = Done
      \<and> books (snd (saveForm code_unit_key Number_dec stale_form example_state))
          = books example_state @ [book_C]"
    by (simp add: stale_form_book)
  from saveForm_stale_index [OF idx', of code_unit_key Number_dec] blank
  have bad: "saveForm code_unit_key Number_dec (stale_form\<lparr>f_title := ''  ''\<rparr>) example_state
       = (Failed ValidationError, example_state)"
    by blast
  from idx stale_form_valid blank ok bad show ?thesis by blast
qed


lemma indexOf_absent: "x \<notin> set xs \<Longrightarrow> indexOf xs x = - 1"
  by (induction xs) (auto simp: Let_def)







subsection \<open>Filtering\<close>

lemma includes_str_sublist: "includes_str hay needle \<longleftrightarrow> sublist needle hay"
  by (induction hay) (simp_all add: sublist_Cons_right)

lemma is_ws_lower_char: "is_ws (lower_char c) = is_ws c"
proof -
  have "(of_char c :: nat) < 256" by simp
  then show ?thesis
    by (auto simp: is_ws_def lower_char_def Let_def)
qed

lemma dropWhile_toLowerCase: "dropWhile is_ws (toLowerCase s) = toLowerCase (dropWhile is_ws s)"
  by (induction s) (simp_all add: toLowerCase_def is_ws_lower_char)

lemma trim_toLowerCase: "trim (toLowerCase s) = toLowerCase (trim s)"
proof -
  have "rev (toLowerCase s) = toLowerCase (rev s)" for s
    by (simp add: toLowerCase_def rev_map)
  then show ?thesis
    by (simp add: trim_def dropWhile_toLowerCase)
qed

lemma toLowerCase_append: "toLowerCase (a @ b) = toLowerCase a @ toLowerCase b"
  by (simp add: toLowerCase_def)

lemma toLowerCase_join:
  "toLowerCase sep = sep \<Longrightarrow> join sep (map toLowerCase xs) = toLowerCase (join sep xs)"
proof (induction sep xs rule: join.induct)
  case (1 sep)
  show ?case by (simp add: toLowerCase_def)
next
  case (2 sep x)
  show ?case by simp
next
  case (3 sep x y ys)
  then show ?case by (simp add: toLowerCase_append)
qed

lemma toLowerCase_join_space:
  "join '' '' (map toLowerCase xs) = toLowerCase (join '' '' xs)"
  by (rule toLowerCase_join) (simp add: toLowerCase_def lower_char_def)

lemma member_all: "list_all (\<lambda>t. List.member ys t) xs \<longleftrightarrow> set xs \<subseteq> set ys"
  by (auto simp: list_all_iff)

lemma join_separated: "join [c] xs = separated c xs"
proof (induction xs rule: induct_list012)
  case 1
  show ?case by (simp add: separated_def)
next
  case (2 x)
  show ?case by (simp add: separated_def)
next
  case (3 x y ys)
  then show ?case by (simp add: separated_def)
qed

lemma year_String_text: "year_String numToString y = year_text numToString y"
  by (simp add: year_String_def num_String_def year_text_def split: yearval.splits jsnum.splits)

lemma applyFilters_eq_filter:
  "applyFilters numToString fs st = filter (visible numToString fs) (books st)"
  unfolding applyFilters_def visible_def matches_text_def matches_author_def matches_year_def
    matches_tags_def Let_def
  by (rule filter_cong)
     (auto simp: includes_str_sublist trim_toLowerCase toLowerCase_join_space member_all
        join_separated [symmetric] year_String_text [symmetric])

text \<open>
  Claim C6, amended. For every book list and every filter state, \<^verbatim>\<open>applyFilters\<close> hands on
  exactly the books that satisfy all four predicates: the query, trimmed, occurs, letter
  case aside, in the title, in the author, or in the tag names joined by single spaces (the
  names are not run together); the author is the selected author; the year, as a string, is
  the selected year; every selected tag is a tag of the book. A query that is empty after
  trimming, an empty selection and an empty tag selection match every book. The result is
  the book list with the other books left out, in the order of the book list.
\<close>

theorem applyFilters_visible:
  "applyFilters numToString fs st = filter (visible numToString fs) (books st)
   \<and> subseq (applyFilters numToString fs st) (books st)"
  by (simp add: applyFilters_eq_filter)

lemma shelf_lower:
  "toLowerCase ''Optics'' = ''optics''" "toLowerCase ''Newton'' = ''newton''"
  "toLowerCase ''Math Physics'' = ''math physics''"
  "toLowerCase ''B'' = ''b''" "toLowerCase ''A'' = ''a''" "toLowerCase ''Z'' = ''z''"
  "toLowerCase [] = []" "toLowerCase ''PHYS'' = ''phys''" "toLowerCase ''h p'' = ''h p''"
  "toLowerCase ''hp'' = ''hp''" "toLowerCase ''MathPhysics'' = ''mathphysics''"
  by code_simp+

lemma shelf_years:
  "show_int 2001 = ''2001''" "show_int 1999 = ''1999''" "show_int 1704 = ''1704''"
  by code_simp+

lemma trim_queries:
  "trim [] = []" "trim ''  PHYS '' = ''PHYS''" "trim ''h p'' = ''h p''" "trim ''hp'' = ''hp''"
  by (simp_all add: trim_def is_ws_def)

lemmas visible_defs =
  visible_def matches_text_def matches_author_def matches_year_def matches_tags_def
  year_text_def separated_def book_A_def book_B_def physics_book_def no_filter_def
  shelf_lower shelf_years trim_queries Let_def sublist_Cons_right

lemma books_shelf: "books shelf = [book_B, book_A, physics_book]"
  by (simp add: shelf_def)

lemma filter_by_year:
  "filter (visible show_int (no_filter\<lparr>yearFilter := ''1704''\<rparr>)) [book_B, book_A, physics_book]
     = [physics_book]"
  "filter (visible show_int (no_filter\<lparr>yearFilter := ''2001''\<rparr>)) [book_B, book_A, physics_book]
     = [book_B]"
  by (simp_all add: visible_defs)

lemma filter_by_author:
  "filter (visible show_int (no_filter\<lparr>authorFilter := ''Z''\<rparr>)) [book_B, book_A, physics_book]
     = [book_A]"
  by (simp add: visible_defs)

lemma filter_by_tags:
  "filter (visible show_int (no_filter\<lparr>filterTags := [''Physics'', ''Math'']\<rparr>))
     [book_B, book_A, physics_book] = [physics_book]"
  "filter (visible show_int (no_filter\<lparr>filterTags := [''Math'', ''Biology'']\<rparr>))
     [book_B, book_A, physics_book] = []"
  by (simp_all add: visible_defs)

lemma filter_by_text:
  "filter (visible show_int (no_filter\<lparr>searchInput := ''  PHYS ''\<rparr>)) [book_B, book_A, physics_book]
     = [physics_book]"
  "filter (visible show_int (no_filter\<lparr>searchInput := ''h p''\<rparr>)) [book_B, book_A, physics_book]
     = [physics_book]"
  "filter (visible show_int (no_filter\<lparr>searchInput := ''hp''\<rparr>)) [book_B, book_A, physics_book]
     = []"
  "filter (visible show_int no_filter) [book_B, book_A, physics_book]
     = [book_B, book_A, physics_book]"
  by (simp_all add: visible_defs)

text \<open>
  The claim as it was stated fails for the query \<^verbatim>\<open>hp\<close> and a book with the tags Math and
  Physics, in this order: the query occurs in the concatenation of the tag names, letter
  case aside, and \<^verbatim>\<open>applyFilters\<close> leaves the book out, since it looks for the query in
  \<^verbatim>\<open>math physics\<close>.
\<close>

theorem applyFilters_visible_counterexample:
  "physics_book \<in> set (books shelf)
   \<and> sublist (toLowerCase ''hp'') (toLowerCase (concat (btags physics_book)))
   \<and> applyFilters show_int (no_filter\<lparr>searchInput := ''hp''\<rparr>) shelf = []"
proof -
  have "sublist (toLowerCase ''hp'') (toLowerCase (concat (btags physics_book)))"
    by (simp add: physics_book_def shelf_lower sublist_Cons_right)
  moreover have "applyFilters show_int (no_filter\<lparr>searchInput := ''hp''\<rparr>) shelf = []"
    by (simp only: applyFilters_eq_filter books_shelf filter_by_text)
  moreover have "physics_book \<in> set (books shelf)"
    by (simp add: books_shelf)
  ultimately show ?thesis by blast
qed

theorem applyFilters_visible_witness:
  "applyFilters show_int no_filter shelf = [book_B, book_A, physics_book]
   \<and> applyFilters show_int (no_filter\<lparr>searchInput := ''  PHYS ''\<rparr>) shelf = [physics_book]
   \<and> applyFilters show_int (no_filter\<lparr>searchInput := ''h p''\<rparr>) shelf = [physics_book]
   \<and> applyFilters show_int (no_filter\<lparr>authorFilter := ''Z''\<rparr>) shelf = [book_A]
   \<and> applyFilters show_int (no_filter\<lparr>yearFilter := ''1704''\<rparr>) shelf = [physics_book]
   \<and> applyFilters show_int (no_filter\<lparr>yearFilter := ''2001''\<rparr>) shelf = [book_B]
   \<and> applyFilters show_int (no_filter\<lparr>filterTags := [''Physics'', ''Math'']\<rparr>) shelf = [physics_book]
   \<and> applyFilters show_int (no_filter\<lparr>filterTags := [''Math'', ''Biology'']\<rparr>) shelf = []"
  using applyFilters_visible [of show_int no_filter shelf]
    applyFilters_visible [of show_int "no_filter\<lparr>searchInput := ''  PHYS ''\<rparr>" shelf]
    applyFilters_visible [of show_int "no_filter\<lparr>searchInput := ''h p''\<rparr>" shelf]
    applyFilters_visible [of show_int "no_filter\<lparr>authorFilter := ''Z''\<rparr>" shelf]
    applyFilters_visible [of show_int "no_filter\<lparr>yearFilter := ''1704''\<rparr>" shelf]
    applyFilters_visible [of show_int "no_filter\<lparr>yearFilter := ''2001''\<rparr>" shelf]
    applyFilters_visible [of show_int "no_filter\<lparr>filterTags := [''Physics'', ''Math'']\<rparr>" shelf]
    applyFilters_visible [of show_int "no_filter\<lparr>filterTags := [''Math'', ''Biology'']\<rparr>" shelf]
  by (simp only: books_shelf filter_by_year filter_by_author filter_by_tags filter_by_text)

subsection \<open>Sorting the books\<close>

lemma field_string_chosen: "field_string nts key b = chosen_field nts key b"
  by (simp add: field_string_def chosen_field_def year_String_text join_separated
      split: yearval.splits)

lemma book_cmp_asc:
  "book_cmp nts key 1 a b \<le> 0 \<longleftrightarrow> sort_field nts key a \<le> sort_field nts key b"
  by (auto simp: book_cmp_def sort_field_def field_string_chosen Let_def)

lemma book_cmp_desc:
  "book_cmp nts key (- 1) a b \<le> 0 \<longleftrightarrow> sort_field nts key b \<le> sort_field nts key a"
  by (auto simp: book_cmp_def sort_field_def field_string_chosen Let_def)

lemma sorted_asc: "sorted (map (sort_field nts key) (array_sort (book_cmp nts key 1) bs))"
  unfolding sorted_map
  by (rule sorted_wrt_array_sort) (auto simp: book_cmp_asc)

lemma sorted_desc: "sorted (rev (map (sort_field nts key) (array_sort (book_cmp nts key (- 1)) bs)))"
proof -
  have "sorted_wrt (\<lambda>a b. sort_field nts key b \<le> sort_field nts key a)
          (array_sort (book_cmp nts key (- 1)) bs)"
    by (rule sorted_wrt_array_sort) (auto simp: book_cmp_desc)
  then show ?thesis
    by (simp add: sorted_wrt_rev sorted_wrt_map)
qed

lemma sorted_in_array_sort:
  "order = 1 \<or> order = - 1 \<Longrightarrow>
   sorted_in order (map (sort_field nts key) (array_sort (book_cmp nts key order) bs))"
  by (auto simp: sorted_in_def sorted_asc sorted_desc)

lemma sortBy_fields:
  "lastSortKey (sortBy nts key st) = Some key"
  "sortOrder (sortBy nts key st) = (if lastSortKey st = Some key then - sortOrder st else 1)"
  "books (sortBy nts key st) =
     array_sort (book_cmp nts key (if lastSortKey st = Some key then - sortOrder st else 1)) (books st)"
  by (simp_all add: sortBy_def Let_def saveBooks_def)

lemma example_lower: "toLowerCase ''B'' = ''b''" "toLowerCase ''A'' = ''a''"
  by code_simp+

lemma example_sorted_once:
  "sortBy show_int ''title'' example_state =
     example_state\<lparr>books := [book_A, book_B], lastSortKey := Some ''title'', sortOrder := 1,
       storage_books := Stored [book_A, book_B]\<rparr>"
  by (simp add: sortBy_def Let_def saveBooks_def example_state_def first_run_eval array_sort_def
      book_cmp_def field_string_def book_A_def book_B_def example_lower json_book_def)

lemma example_sorted_twice:
  "sortBy show_int ''title'' (sortBy show_int ''title'' example_state) =
     example_state\<lparr>books := [book_B, book_A], lastSortKey := Some ''title'', sortOrder := - 1,
       storage_books := Stored [book_B, book_A]\<rparr>"
  by (simp add: example_sorted_once)
     (simp add: sortBy_def Let_def saveBooks_def example_state_def first_run_eval array_sort_def
      book_cmp_def field_string_def book_A_def book_B_def example_lower json_book_def)

lemma years_lower:
  "toLowerCase ''2001'' = ''2001''" "toLowerCase ''1999'' = ''1999''"
  "toLowerCase ''1704'' = ''1704''"
  by code_simp+

lemma shelf_sorted:
  "books (sortBy show_int ''title'' shelf) = [book_A, book_B, physics_book]"
  "books (sortBy show_int ''author'' shelf) = [book_B, physics_book, book_A]"
  "books (sortBy show_int ''year'' shelf) = [physics_book, book_A, book_B]"
  "books (sortBy show_int ''author'' (sortBy show_int ''author'' shelf))
     = [book_A, physics_book, book_B]"
  by (simp_all add: sortBy_fields)
     (simp_all add: shelf_def first_run_eval array_sort_def book_cmp_def field_string_def
        year_String_def num_String_def book_A_def book_B_def physics_book_def shelf_lower
        shelf_years years_lower Let_def)

text \<open>
  Claim C7. \<^verbatim>\<open>sortBy(key)\<close> orders the books by the chosen field taken as a string, letter
  case aside. A call with the key of the call before it (the key that \<^verbatim>\<open>lastSortKey\<close> holds)
  turns the direction round, a call with another key sorts ascending; the books are the
  same books. For the books \<^verbatim>\<open>[{title:"B",author:"A",year:2001},{title:"A",author:"Z",year:1999}]\<close>
  \<^verbatim>\<open>sortBy("title")\<close> gives the titles A, B and a second \<^verbatim>\<open>sortBy("title")\<close> gives B, A.
  Of three books, B by A of 2001, A by Z of 1999 and Optics by Newton of 1704, \<^verbatim>\<open>sortBy\<close>
  puts A, B, Optics first for the key \<^verbatim>\<open>title\<close>, B, Optics, A for \<^verbatim>\<open>author\<close> and Optics, A, B
  for \<^verbatim>\<open>year\<close>. The direction is 1 or -1 in every state the program reaches, which is the
  hypothesis.
\<close>

theorem sortBy_direction:
  assumes "sortOrder st = 1 \<or> sortOrder st = - 1"
  shows "lastSortKey (sortBy numToString key st) = Some key
    \<and> sortOrder (sortBy numToString key st)
        = (if lastSortKey st = Some key then - sortOrder st else 1)
    \<and> sorted_in (sortOrder (sortBy numToString key st))
        (map (sort_field numToString key) (books (sortBy numToString key st)))
    \<and> mset (books (sortBy numToString key st)) = mset (books st)
    \<and> map title (books (sortBy show_int ''title'' example_state)) = [''A'', ''B'']
    \<and> map title (books (sortBy show_int ''title'' (sortBy show_int ''title'' example_state)))
        = [''B'', ''A'']
    \<and> map title (books (sortBy show_int ''title'' shelf)) = [''A'', ''B'', ''Optics'']
    \<and> map title (books (sortBy show_int ''author'' shelf)) = [''B'', ''Optics'', ''A'']
    \<and> map title (books (sortBy show_int ''year'' shelf)) = [''Optics'', ''A'', ''B'']
    \<and> map title (books (sortBy show_int ''author'' (sortBy show_int ''author'' shelf)))
        = [''A'', ''Optics'', ''B'']"
proof -
  let ?d = "if lastSortKey st = Some key then - sortOrder st else 1"
  have d: "?d = 1 \<or> ?d = - 1" using assms by auto
  have "sorted_in ?d (map (sort_field numToString key) (array_sort (book_cmp numToString key ?d) (books st)))"
    using d by (rule sorted_in_array_sort)
  then have general: "sorted_in (sortOrder (sortBy numToString key st))
        (map (sort_field numToString key) (books (sortBy numToString key st)))"
    by (simp add: sortBy_fields)
  have perm: "mset (books (sortBy numToString key st)) = mset (books st)"
    by (simp add: sortBy_fields mset_array_sort)
  have once: "map title (books (sortBy show_int ''title'' example_state)) = [''A'', ''B'']"
    by (simp add: example_sorted_once book_A_def book_B_def)
  have twice: "map title (books (sortBy show_int ''title'' (sortBy show_int ''title'' example_state)))
        = [''B'', ''A'']"
    by (simp add: example_sorted_twice book_A_def book_B_def)
  have three: "map title (books (sortBy show_int ''title'' shelf)) = [''A'', ''B'', ''Optics'']"
    "map title (books (sortBy show_int ''author'' shelf)) = [''B'', ''Optics'', ''A'']"
    "map title (books (sortBy show_int ''year'' shelf)) = [''Optics'', ''A'', ''B'']"
    "map title (books (sortBy show_int ''author'' (sortBy show_int ''author'' shelf)))
        = [''A'', ''Optics'', ''B'']"
    by (simp_all add: shelf_sorted book_A_def book_B_def physics_book_def)
  from general perm once twice three sortBy_fields(1,2) [of numToString key st] show ?thesis
    by blast
qed

theorem sortBy_direction_witness:
  "(sortOrder example_state = 1 \<or> sortOrder example_state = - 1)
   \<and> lastSortKey example_state = None
   \<and> sortOrder (sortBy show_int ''title'' example_state) = 1
   \<and> sortOrder (sortBy show_int ''title'' (sortBy show_int ''title'' example_state)) = - 1
   \<and> sortOrder (sortBy show_int ''author'' (sortBy show_int ''title'' example_state)) = 1
   \<and> sorted (map (sort_field show_int ''title'') (books (sortBy show_int ''title'' example_state)))
   \<and> sorted (rev (map (sort_field show_int ''title'')
         (books (sortBy show_int ''title'' (sortBy show_int ''title'' example_state)))))"
proof -
  have o0: "sortOrder example_state = 1 \<or> sortOrder example_state = - 1"
    and k0: "lastSortKey example_state = None"
    by (simp_all add: example_state_def first_run_eval)
  note first = sortBy_direction [OF o0, of show_int "''title''"]
  from first k0 have o1: "sortOrder (sortBy show_int ''title'' example_state) = 1"
    and k1: "lastSortKey (sortBy show_int ''title'' example_state) = Some ''title''"
    by simp_all
  from o1 have o1': "sortOrder (sortBy show_int ''title'' example_state) = 1
      \<or> sortOrder (sortBy show_int ''title'' example_state) = - 1" by simp
  note again = sortBy_direction [OF o1', of show_int "''title''"]
  note other = sortBy_direction [OF o1', of show_int "''author''"]
  from again o1 k1
  have o2: "sortOrder (sortBy show_int ''title'' (sortBy show_int ''title'' example_state)) = - 1"
    by simp
  from other k1
  have o3: "sortOrder (sortBy show_int ''author'' (sortBy show_int ''title'' example_state)) = 1"
    by simp
  from first o1
  have s1: "sorted (map (sort_field show_int ''title'') (books (sortBy show_int ''title'' example_state)))"
    by (simp add: sorted_in_def)
  from again o2
  have s2: "sorted (rev (map (sort_field show_int ''title'')
         (books (sortBy show_int ''title'' (sortBy show_int ''title'' example_state)))))"
    by (simp add: sorted_in_def)
  from o0 k0 o1 o2 o3 s1 s2 show ?thesis by blast
qed

subsection \<open>Reachable states\<close>

lemma colors_ok_array_sort: "colors_ok (array_sort cmp ts) = colors_ok ts"
  by (simp add: colors_ok_def list_all_iff set_array_sort)

lemma colorForTagName_nonempty: "colorForTagName n \<noteq> []"
  by (simp add: colorForTagName_def Let_def)

lemma colors_ok_PREDEFINED: "colors_ok PREDEFINED_TAGS"
  by (simp add: colors_ok_def PREDEFINED_TAGS_def)

lemma colors_ok_init_step: "colors_ok ts \<Longrightarrow> color pt \<noteq> [] \<Longrightarrow> colors_ok (init_step pt ts)"
  by (simp add: init_step_def colors_ok_def)

lemma colors_ok_fold_init_step:
  "colors_ok ts \<Longrightarrow> colors_ok ps \<Longrightarrow> colors_ok (fold init_step ps ts)"
proof (induction ps arbitrary: ts)
  case Nil
  then show ?case by simp
next
  case (Cons p ps)
  from Cons.prems(2) have p: "color p \<noteq> []" and ps: "colors_ok ps"
    by (simp_all add: colors_ok_def)
  from Cons.prems(1) p have "colors_ok (init_step p ts)" by (rule colors_ok_init_step)
  then have "colors_ok (fold init_step ps (init_step p ts))" using ps by (rule Cons.IH)
  then show ?case by simp
qed

lemma colors_ok_loadTags: "slot_ok rt \<Longrightarrow> colors_ok (fst (loadTags ckey rt))"
  by (cases rt)
     (simp_all add: loadTags_def Let_def slot_ok_def colors_ok_array_sort colors_ok_PREDEFINED)

lemma tag_inv_startup:
  assumes "slot_ok rt"
  shows "tag_inv ckey (startup ckey rb rt)"
proof -
  have "colors_ok (tags (startup ckey rb rt))"
    using assms
    by (simp add: tags_startup colors_ok_array_sort colors_ok_fold_init_step colors_ok_loadTags
        colors_ok_PREDEFINED)
  then show ?thesis
    by (simp add: tag_inv_def tags_sorted_startup storage_tags_startup slot_ok_def)
qed

lemma tag_inv_ensureTagExists:
  assumes "tag_inv ckey st"
  shows "tag_inv ckey (snd (ensureTagExists ckey n st))"
proof (cases "trim n = []")
  case True
  with assms show ?thesis by (simp add: ensureTagExists_empty)
next
  case ne: False
  show ?thesis
  proof (cases "findTagByName (trim n) (tags st)")
    case (Some e)
    with ne assms show ?thesis by (simp add: ensureTagExists_existing)
  next
    case None
    with ne assms show ?thesis
      by (simp add: ensureTagExists_new tag_inv_def tags_sorted_array_sort colors_ok_array_sort
          slot_ok_def)
         (simp add: colors_ok_def colorForTagName_nonempty)
  qed
qed

lemma tag_inv_fold_ensureTagExists:
  "tag_inv ckey st \<Longrightarrow> tag_inv ckey (fold (\<lambda>t s. snd (ensureTagExists ckey t s)) ns st)"
  by (induction ns arbitrary: st) (simp_all add: tag_inv_ensureTagExists)

lemma tag_inv_renderAll:
  "colors_ok (tags st) \<Longrightarrow> slot_ok (storage_tags st) \<Longrightarrow> tag_inv ckey (renderAll ckey st)"
  by (simp add: tag_inv_def tags_sorted_renderAll)
     (simp add: renderAll_def renderTagControls_def colors_ok_array_sort)

lemma tag_inv_saveForm:
  assumes "tag_inv ckey st"
  shows "tag_inv ckey (snd (saveForm ckey Number fm st))"
proof (cases "trim (f_title fm) = [] \<or> trim (f_author fm) = []")
  case True
  with assms show ?thesis by (simp add: saveForm_invalid)
next
  case False
  have "tag_inv ckey (fold (\<lambda>t s. snd (ensureTagExists ckey t s)) (uniq (formTags fm)) st)"
    using assms by (rule tag_inv_fold_ensureTagExists)
  then show ?thesis
    using False
    by (auto simp: saveForm_def Let_def saveBooks_def tag_inv_def intro!: tag_inv_renderAll [unfolded tag_inv_def])
qed

lemma tag_inv_renderTagControls:
  "tag_inv ckey st \<Longrightarrow> tag_inv ckey (renderTagControls ckey st)"
  using tag_inv_renderAll [of st ckey] by (simp add: tag_inv_def renderAll_def)

lemma tag_inv_addCustomTagFromInput:
  "tag_inv ckey st \<Longrightarrow> tag_inv ckey (addCustomTagFromInput ckey v st)"
  by (simp add: addCustomTagFromInput_def Let_def tag_inv_ensureTagExists)

lemma tag_inv_deleteFromForm:
  "tag_inv ckey st \<Longrightarrow> tag_inv ckey (deleteFromForm ckey c i st)"
  by (auto simp: deleteFromForm_def saveBooks_def tag_inv_def
      intro!: tag_inv_renderAll [unfolded tag_inv_def])

lemma tag_inv_deleteBook:
  "tag_inv ckey st \<Longrightarrow> tag_inv ckey (deleteBook ckey c i st)"
  by (auto simp: deleteBook_def saveBooks_def tag_inv_def
      intro!: tag_inv_renderAll [unfolded tag_inv_def])

lemma colors_ok_filter: "colors_ok ts \<Longrightarrow> colors_ok (filter P ts)"
  by (simp add: colors_ok_def list_all_iff)

lemma tag_inv_deleteTag:
  assumes "tag_inv ckey st"
  shows "tag_inv ckey (deleteTag ckey c n st)"
proof (cases "findTagByName n (tags st) = None \<or> \<not> c")
  case True
  with assms show ?thesis by (auto simp: deleteTag_def split: option.splits)
next
  case False
  from assms have ok: "colors_ok (filter (\<lambda>t. name t \<noteq> n) (tags st))"
    by (simp add: tag_inv_def colors_ok_filter)
  from False have "deleteTag ckey c n st =
      renderAll ckey (saveTags (saveBooks (st\<lparr>books :=
          map (\<lambda>b. b\<lparr>btags := filter (\<lambda>t. t \<noteq> n) (btags b)\<rparr>) (books st)\<rparr>)
        \<lparr>tags := filter (\<lambda>t. name t \<noteq> n) (tags st)\<rparr>))"
    by (auto simp: deleteTag_def Let_def saveBooks_def split: option.splits)
  moreover have "tag_inv ckey \<dots>"
    using ok by (intro tag_inv_renderAll) (simp_all add: saveTags_def saveBooks_def slot_ok_def)
  ultimately show ?thesis by simp
qed

lemma tag_inv_sortBy: "tag_inv ckey st \<Longrightarrow> tag_inv ckey (sortBy nts key st)"
  by (simp add: sortBy_def Let_def saveBooks_def tag_inv_def)

lemma colors_ok_import_tag: "import_tag e = Some t \<Longrightarrow> color t \<noteq> []"
  by (cases e) (auto simp: colorForTagName_nonempty split: option.splits if_splits)

lemma colors_ok_map_entries: "map_entries es = Some ts \<Longrightarrow> colors_ok ts"
proof (induction es arbitrary: ts)
  case Nil
  then show ?case by (simp add: map_entries_Nil colors_ok_def)
next
  case (Cons e es)
  then show ?case
    by (auto simp: map_entries_Cons colors_ok_def dest: colors_ok_import_tag split: option.splits)
qed

lemma tag_inv_case_books:
  "tag_inv ckey (case bo of Some bs \<Rightarrow> st\<lparr>books := bs\<rparr> | None \<Rightarrow> st) = tag_inv ckey st"
  by (cases bo) (simp_all add: tag_inv_def)

lemma tag_inv_importBackup:
  assumes "tag_inv ckey st"
  shows "tag_inv ckey (snd (importBackup ckey doc st))"
proof (cases doc rule: importBackup_cases)
  case rejected
  with assms show ?thesis by (auto simp: importBackup_rejected)
next
  case (throwing d es)
  with assms show ?thesis by (simp add: importBackup_throwing tag_inv_case_books)
next
  case (tags d es ts)
  from tags(3) have "colors_ok ts" by (rule colors_ok_map_entries)
  then show ?thesis
    unfolding tags(1) importBackup_tags [OF tags(2,3)]
    by (simp add: tag_inv_renderAll saveTags_def saveBooks_def slot_ok_def colors_ok_array_sort)
next
  case (no_tags d)
  from assms have "colors_ok (tags st)" by (simp add: tag_inv_def)
  then show ?thesis
    unfolding no_tags(1) importBackup_no_tags [OF no_tags(2)]
    by (simp add: saveTags_def saveBooks_def slot_ok_def tag_inv_renderAll)
qed

lemma reachable_tag_inv: "reachable ckey Number nts st \<Longrightarrow> tag_inv ckey st"
proof (induction rule: reachable.induct)
  case first_start
  show ?case by (rule tag_inv_startup) (simp add: slot_ok_def)
next
  case (reload st)
  then show ?case by (intro tag_inv_startup) (simp add: tag_inv_def)
qed (simp_all add: tag_inv_renderTagControls tag_inv_addCustomTagFromInput tag_inv_saveForm tag_inv_deleteFromForm
      tag_inv_deleteBook tag_inv_deleteTag tag_inv_sortBy tag_inv_importBackup)

subsection \<open>Export and import\<close>

lemma map_entries_exported:
  "colors_ok ts \<Longrightarrow> map_entries (map (\<lambda>t. TagObject (name t) (Some (color t))) ts) = Some ts"
  by (induction ts) (simp_all add: map_entries_Nil map_entries_Cons colors_ok_def)

lemma json_book_finite: "finite_year (year b) \<Longrightarrow> json_book b = b"
  by (cases "year b" rule: json_year.cases) (simp_all add: json_book_def finite_year_def)

lemma import_export:
  assumes "colors_ok (tags st)"
  shows "importBackup ckey (exportBackup st) st' =
    (Done, renderAll ckey (saveTags (saveBooks
       (st'\<lparr>books := map json_book (books st), tags := array_sort (tag_cmp ckey) (tags st)\<rparr>))))"
  unfolding exportBackup_def
  by (subst importBackup_tags [where es = "map (\<lambda>t. TagObject (name t) (Some (color t))) (tags st)"
        and ts = "tags st"])
     (simp_all add: map_entries_exported assms)

lemma books_import_export:
  "tag_inv ckey st \<Longrightarrow>
   books (snd (importBackup ckey (exportBackup st) st')) = map json_book (books st)"
  by (simp add: tag_inv_def import_export books_renderAll saveTags_def saveBooks_def)

lemma tags_import_export:
  assumes "tag_inv ckey st"
  shows "tags (snd (importBackup ckey (exportBackup st) st')) = tags st"
proof -
  from assms have ok: "colors_ok (tags st)" and srt: "tags_sorted ckey (tags st)"
    by (simp_all add: tag_inv_def)
  have "tags (snd (importBackup ckey (exportBackup st) st')) =
      array_sort (tag_cmp ckey) (tags st)"
    by (simp add: import_export [OF ok] tags_renderAll saveTags_def saveBooks_def array_sort_twice)
  also have "\<dots> = tags st"
    using srt by (rule array_sort_tags_sorted)
  finally show ?thesis .
qed

text \<open>
  Claim C5, amended. For every reachable state, \<^verbatim>\<open>importBackup\<close> on the document that
  \<^verbatim>\<open>exportBackup\<close> produced succeeds, whatever the state at the time of the import; the tag
  store is the tag store of the exported state; the book list is the exported book list
  except that a year \<^verbatim>\<open>Infinity\<close>, \<^verbatim>\<open>-Infinity\<close> or \<^verbatim>\<open>NaN\<close> has become \<^verbatim>\<open>null\<close>. So the
  book list is the same whenever every year is a finite number, a string or \<^verbatim>\<open>null\<close>.
\<close>

theorem export_import_roundtrip:
  assumes "reachable ckey Number numToString st"
  shows "fst (importBackup ckey (exportBackup st) st') = Done
    \<and> tags (snd (importBackup ckey (exportBackup st) st')) = tags st
    \<and> books (snd (importBackup ckey (exportBackup st) st')) = map json_book (books st)
    \<and> ((\<forall>b\<in>set (books st). finite_year (year b)) \<longrightarrow>
          books (snd (importBackup ckey (exportBackup st) st')) = books st)"
proof -
  from assms have inv: "tag_inv ckey st" by (rule reachable_tag_inv)
  then have ok: "colors_ok (tags st)" by (simp add: tag_inv_def)
  from inv have "tags (snd (importBackup ckey (exportBackup st) st')) = tags st"
    by (rule tags_import_export)
  moreover have "map json_book (books st) = books st" if "\<forall>b\<in>set (books st). finite_year (year b)"
    using that by (simp add: map_idI json_book_finite)
  moreover have "fst (importBackup ckey (exportBackup st) st') = Done"
    and "books (snd (importBackup ckey (exportBackup st) st')) = map json_book (books st)"
    by (simp_all add: import_export [OF ok] books_renderAll saveTags_def saveBooks_def)
  ultimately show ?thesis by simp
qed

lemma inf_state_books:
  "books inf_state = [\<lparr>title = ''T'', author = ''U'', year = YearNum PosInf, link = [], btags = []\<rparr>]"
proof -
  have n: "Number_dec ''Infinity'' = PosInf"
    by (simp add: Number_dec_def trim_def is_ws_def)
  have v: "trim (f_title inf_form) \<noteq> []" "trim (f_author inf_form) \<noteq> []"
    by (simp_all add: inf_form_def trim_def is_ws_def)
  have b: "form_book code_unit_key Number_dec inf_form =
      \<lparr>title = ''T'', author = ''U'', year = YearNum PosInf, link = [], btags = []\<rparr>"
    by (simp add: form_book_def inf_form_def form_year_def n trim_def is_ws_def array_sort_def)
  have i: "editingIndex inf_form = - 1" by (simp add: inf_form_def)
  show ?thesis
    unfolding inf_state_def
    by (simp add: saveForm_valid(2) [OF v] b i first_run_eval)
qed

lemma inf_state_reachable: "reachable code_unit_key Number_dec show_int inf_state"
  unfolding inf_state_def first_run_def
  by (intro reachable.save reachable.first_start)

text \<open>
  The claim as it was stated fails after a book is saved with the text \<^verbatim>\<open>Infinity\<close> in the
  year field: \<^verbatim>\<open>Number("Infinity")\<close> is no \<^verbatim>\<open>NaN\<close>, the book gets the year \<^verbatim>\<open>Infinity\<close>,
  the document says \<^verbatim>\<open>null\<close>, and the imported book has the year \<^verbatim>\<open>null\<close>.
\<close>

theorem export_import_roundtrip_counterexample:
  "reachable code_unit_key Number_dec show_int inf_state
   \<and> books inf_state
       = [\<lparr>title = ''T'', author = ''U'', year = YearNum PosInf, link = [], btags = []\<rparr>]
   \<and> books (snd (importBackup code_unit_key (exportBackup inf_state) inf_state))
       = [\<lparr>title = ''T'', author = ''U'', year = YearNull, link = [], btags = []\<rparr>]
   \<and> books (snd (importBackup code_unit_key (exportBackup inf_state) inf_state)) \<noteq> books inf_state"
  by (simp add: inf_state_reachable inf_state_books json_book_def
      books_import_export [OF reachable_tag_inv [OF inf_state_reachable]])

theorem export_import_roundtrip_witness:
  "reachable code_unit_key Number_dec show_int (sortBy show_int ''title'' example_state)
   \<and> list_all (\<lambda>b. finite_year (year b)) (books (sortBy show_int ''title'' example_state))
   \<and> tags (snd (importBackup code_unit_key (exportBackup (sortBy show_int ''title'' example_state)) first_run))
       = tags (sortBy show_int ''title'' example_state)
   \<and> books (snd (importBackup code_unit_key (exportBackup (sortBy show_int ''title'' example_state)) first_run))
       = [book_A, book_B]"
proof -
  have ex: "example_state = snd (importBackup code_unit_key
      (Json \<lparr>doc_books = Some [book_B, book_A], doc_tags = None\<rparr>) first_run)"
    by (simp add: importBackup_no_tags)
       (simp add: example_state_def first_run_eval saveTags_def
        saveBooks_def renderAll_def renderTagControls_def array_sort_def tag_cmp_def
        localeCompare_def code_unit_key_def tag_Biology_def tag_Math_def tag_Physics_def
        json_book_def book_A_def book_B_def)
  have "reachable code_unit_key Number_dec show_int example_state"
    unfolding ex first_run_def by (intro reachable.import reachable.first_start)
  then have r: "reachable code_unit_key Number_dec show_int (sortBy show_int ''title'' example_state)"
    by (rule reachable.sort)
  have bs: "books (sortBy show_int ''title'' example_state) = [book_A, book_B]"
    by (simp add: example_sorted_once)
  have fin: "\<forall>b\<in>set (books (sortBy show_int ''title'' example_state)). finite_year (year b)"
    by (simp add: bs finite_year_def book_A_def book_B_def)
  from export_import_roundtrip [OF r, of first_run] fin
  have "tags (snd (importBackup code_unit_key (exportBackup (sortBy show_int ''title'' example_state)) first_run))
       = tags (sortBy show_int ''title'' example_state)
     \<and> books (snd (importBackup code_unit_key (exportBackup (sortBy show_int ''title'' example_state)) first_run))
       = books (sortBy show_int ''title'' example_state)"
    by blast
  with r fin bs show ?thesis by (simp add: list_all_iff)
qed

end
